theory Spec2Isabelle
  imports Complex_Main
begin

section \<open>JavaScript values, errors and strings\<close>

text \<open>
  The services exchange plain JavaScript objects: the parsed \<^verbatim>\<open>package.json\<close>, the
  project description returned by the classifier, the fields of a run. A value is
  \<^verbatim>\<open>undefined\<close>, \<^verbatim>\<open>null\<close>, a boolean, a number, a string, an array or an object; an
  object is the list of its own properties in enumeration order. A string is the
  list of its UTF-16 code units, one character each, for the units below 256; every
  text and every pattern of this development is ASCII.
\<close>

datatype jsval =
    JUndefined
  | JNull
  | JBool bool
  | JNum real
  | JStr string
  | JArr "jsval list"
  | JObj "(string \<times> jsval) list"

type_synonym obj = "(string \<times> jsval) list"

text \<open>\<open>objProp ps k\<close> is \<^verbatim>\<open>o.k\<close> for the object \<^verbatim>\<open>o\<close> with the properties \<open>ps\<close>.\<close>

definition objProp :: "obj \<Rightarrow> string \<Rightarrow> jsval" where
  "objProp ps k = (case map_of ps k of Some v \<Rightarrow> v | None \<Rightarrow> JUndefined)"

text \<open>
  A thrown value. \<open>Error msg\<close> is \<^verbatim>\<open>new Error(msg)\<close> of the repository's own code;
  the others are thrown by the engine (\<open>TypeError\<close>, \<open>SyntaxError\<close>) or by a file-system
  or archive-library call (\<open>SystemError\<close>). The text of an engine error is the
  engine's; \<open>message\<close> gives the name of the error for it.
\<close>

datatype error =
    Error string
  | TypeError
  | SyntaxError
  | SystemError string

fun message :: "error \<Rightarrow> string" where
  "message (Error m) = m"
| "message TypeError = ''TypeError''"
| "message SyntaxError = ''SyntaxError''"
| "message (SystemError m) = m"

definition e_bind :: "error + 'a \<Rightarrow> ('a \<Rightarrow> error + 'b) \<Rightarrow> error + 'b" where
  "e_bind m f = (case m of Inl e \<Rightarrow> Inl e | Inr v \<Rightarrow> f v)"

fun truthy :: "jsval \<Rightarrow> bool" where
  "truthy JUndefined = False"
| "truthy JNull = False"
| "truthy (JBool b) = b"
| "truthy (JNum n) = (n \<noteq> 0)"
| "truthy (JStr s) = (s \<noteq> [])"
| "truthy (JArr xs) = True"
| "truthy (JObj ps) = True"

text \<open>
  \<^verbatim>\<open>v.k\<close> for the property names the classifier reads (none of them an index or a
  name found on a prototype): a \<open>TypeError\<close> on \<^verbatim>\<open>null\<close> and \<^verbatim>\<open>undefined\<close>, the own property
  of an object, \<^verbatim>\<open>undefined\<close> otherwise.
\<close>

fun getProp :: "jsval \<Rightarrow> string \<Rightarrow> error + jsval" where
  "getProp JUndefined k = Inl TypeError"
| "getProp JNull k = Inl TypeError"
| "getProp (JObj ps) k = Inr (objProp ps k)"
| "getProp v k = Inr JUndefined"

text \<open>\<^verbatim>\<open>a.k || rest\<close>: \<open>rest\<close> is evaluated only when \<^verbatim>\<open>a.k\<close> is falsy.\<close>

definition or_prop :: "jsval \<Rightarrow> string \<Rightarrow> (error + jsval) \<Rightarrow> error + jsval" where
  "or_prop a k rest = e_bind (getProp a k) (\<lambda>v. if truthy v then Inr v else rest)"

text \<open>One binding \<^verbatim>\<open>k = {}\<close> of a destructuring pattern: the default replaces \<^verbatim>\<open>undefined\<close> only.\<close>

definition destructure :: "jsval \<Rightarrow> string \<Rightarrow> error + jsval" where
  "destructure obj k =
     e_bind (getProp obj k) (\<lambda>v. if v = JUndefined then Inr (JObj []) else Inr v)"

definition digit :: "nat \<Rightarrow> char" where
  "digit n = ''0123456789'' ! (n mod 10)"

fun decimal :: "nat \<Rightarrow> string" where
  "decimal n = (if n < 10 then [digit n] else decimal (n div 10) @ [digit (n mod 10)])"

text \<open>\<^verbatim>\<open>Object.keys(v)\<close> for a value that is neither \<^verbatim>\<open>null\<close> nor \<^verbatim>\<open>undefined\<close>.\<close>

fun objectKeys :: "jsval \<Rightarrow> string list" where
  "objectKeys (JObj ps) = map fst ps"
| "objectKeys (JArr xs) = map decimal [0..<length xs]"
| "objectKeys (JStr s) = map decimal [0..<length s]"
| "objectKeys v = []"

fun startsWith :: "string \<Rightarrow> string \<Rightarrow> bool" where
  "startsWith s [] = True"
| "startsWith [] (p # ps) = False"
| "startsWith (c # cs) (p # ps) = (c = p \<and> startsWith cs ps)"

fun includes_str :: "string \<Rightarrow> string \<Rightarrow> bool" where
  "includes_str [] sub = startsWith [] sub"
| "includes_str (c # cs) sub = (startsWith (c # cs) sub \<or> includes_str cs sub)"

definition endsWith :: "string \<Rightarrow> string \<Rightarrow> bool" where
  "endsWith s suf = startsWith (rev s) (rev suf)"

text \<open>\<^verbatim>\<open>s.split('/')\<close>: the segments between slashes, one more than there are slashes.\<close>

fun split_slash :: "string \<Rightarrow> string list" where
  "split_slash [] = [[]]"
| "split_slash (c # cs) =
     (if c = CHR ''/'' then [] # split_slash cs
      else (case split_slash cs of [] \<Rightarrow> [[c]] | seg # segs \<Rightarrow> (c # seg) # segs))"

section \<open>Configuration\<close>

definition upload_maxFiles :: nat where
  "upload_maxFiles = 1000"

definition upload_tempDir :: string where
  "upload_tempDir = ''./temp''"

text \<open>
  The two Content-Security-Policy profiles of \<^verbatim>\<open>config.security.csp\<close>;
  \<open>quoted s\<close> is \<open>s\<close> between two apostrophes.
\<close>

definition quoted :: "string \<Rightarrow> string" where
  "quoted s = CHR 0x27 # s @ [CHR 0x27]"

definition csp_strict :: string where
  "csp_strict = concat
    [''default-src '', quoted ''none'', ''; script-src '', quoted ''self'', ''; style-src '',
     quoted ''self'', '' '', quoted ''unsafe-inline'', ''; img-src '', quoted ''self'',
     '' data:; font-src '', quoted ''self'', ''; connect-src '', quoted ''self'',
     ''; frame-ancestors '', quoted ''self'', ''; base-uri '', quoted ''none'',
     ''; form-action '', quoted ''self'']"

definition csp_relaxed :: string where
  "csp_relaxed = concat
    [''default-src '', quoted ''none'', ''; script-src '', quoted ''self'', '' '',
     quoted ''unsafe-inline'', ''; style-src '', quoted ''self'', '' '',
     quoted ''unsafe-inline'', ''; img-src '', quoted ''self'', '' data: https:; font-src '',
     quoted ''self'', '' data:; connect-src '', quoted ''self'', ''; frame-ancestors '',
     quoted ''self'', ''; base-uri '', quoted ''none'', ''; form-action '', quoted ''self'']"

section \<open>ZipProcessor: project classification\<close>

text \<open>
  What \<^verbatim>\<open>fs.readdir\<close> with \<^verbatim>\<open>withFileTypes\<close> shows of an extracted tree: an entry is a
  directory with its entries, or anything else; a file carries the text
  \<^verbatim>\<open>fs.readFile\<close> returns, or \<open>None\<close> when reading it fails.
\<close>

datatype fsnode =
    File string "string option"
  | Dir string "fsnode list"

definition skippedDirs :: "string list" where
  "skippedDirs = [''node_modules'', ''.git'', ''__pycache__'', ''.pytest_cache'']"

definition relativePath :: "string \<Rightarrow> string \<Rightarrow> string" where
  "relativePath prefix name = (if prefix \<noteq> [] then prefix @ ''/'' @ name else name)"

text \<open>\<open>listEntry\<close> is the body of the loop of \<^verbatim>\<open>getFileList\<close>, once per directory entry.\<close>

fun listEntry :: "string \<Rightarrow> fsnode \<Rightarrow> string list" where
  "listEntry prefix (File name content) = [relativePath prefix name]"
| "listEntry prefix (Dir name entries) =
     (if name \<in> set skippedDirs then []
      else concat (map (listEntry (relativePath prefix name)) entries))"

definition getFileList :: "fsnode list \<Rightarrow> string \<Rightarrow> string list" where
  "getFileList entries prefix = concat (map (listEntry prefix) entries)"

text \<open>
  \<^verbatim>\<open>fs.readFile(path.join(projectPath, name))\<close>: the text of the entry of that name at the
  root of the tree; it fails on a missing entry, a directory and an unreadable file.
\<close>

fun readFile :: "fsnode list \<Rightarrow> string \<Rightarrow> error + string" where
  "readFile [] name = Inl (SystemError ''ENOENT'')"
| "readFile (File n content # entries) name =
     (if n = name
      then (case content of None \<Rightarrow> Inl (SystemError ''EACCES'') | Some text \<Rightarrow> Inr text)
      else readFile entries name)"
| "readFile (Dir n sub # entries) name =
     (if n = name then Inl (SystemError ''EISDIR'') else readFile entries name)"

text \<open>
  \<open>parse\<close> is \<^verbatim>\<open>JSON.parse\<close>, a parameter: the value of a JSON text, or the
  \<open>SyntaxError\<close> it throws. Both failures of the \<^verbatim>\<open>try\<close> block end in the empty object.
\<close>

definition readPackageJson :: "(string \<Rightarrow> error + jsval) \<Rightarrow> fsnode list \<Rightarrow> jsval" where
  "readPackageJson parse tree =
     (case readFile tree ''package.json'' of
        Inl e \<Rightarrow> JObj []
      | Inr content \<Rightarrow> (case parse content of Inl e \<Rightarrow> JObj [] | Inr v \<Rightarrow> v))"

definition filesValue :: "string list \<Rightarrow> jsval" where
  "filesValue files = JArr (map JStr files)"

definition nodeInfo ::
  "string \<Rightarrow> string \<Rightarrow> string list \<Rightarrow> jsval \<Rightarrow> jsval \<Rightarrow> jsval \<Rightarrow> obj" where
  "nodeInfo type framework files build start dependencies =
     [(''type'', JStr type), (''framework'', JStr framework), (''files'', filesValue files),
      (''buildCommand'', build), (''startCommand'', start),
      (''dependencies'', JArr (map JStr (objectKeys dependencies)))]"

text \<open>\<^verbatim>\<open>scripts.build ? 'npm run build' : null\<close> and \<^verbatim>\<open>scripts.build || null\<close>.\<close>

definition buildOrNull :: "jsval \<Rightarrow> error + jsval" where
  "buildOrNull scripts =
     e_bind (getProp scripts ''build'')
       (\<lambda>b. Inr (if truthy b then JStr ''npm run build'' else JNull))"

definition buildScriptOrNull :: "jsval \<Rightarrow> error + jsval" where
  "buildScriptOrNull scripts = or_prop scripts ''build'' (Inr JNull)"

definition analyzeNodeProject :: "string list \<Rightarrow> jsval \<Rightarrow> error + obj" where
  "analyzeNodeProject files packageInfo =
     e_bind (destructure packageInfo ''scripts'') (\<lambda>scripts.
     e_bind (destructure packageInfo ''dependencies'') (\<lambda>dependencies.
     e_bind (destructure packageInfo ''devDependencies'') (\<lambda>devDependencies.
     e_bind (or_prop dependencies ''react'' (getProp devDependencies ''react'')) (\<lambda>react.
     if truthy react then
       e_bind (buildOrNull scripts) (\<lambda>build.
       e_bind (or_prop scripts ''start'' (or_prop scripts ''dev'' (Inr (JStr ''npm start'')))) (\<lambda>start.
       Inr (nodeInfo ''react'' ''React'' files build start dependencies)))
     else
     e_bind (or_prop dependencies ''vue'' (getProp devDependencies ''vue'')) (\<lambda>vue.
     if truthy vue then
       e_bind (buildOrNull scripts) (\<lambda>build.
       e_bind (or_prop scripts ''serve'' (or_prop scripts ''dev'' (Inr (JStr ''npm run serve'')))) (\<lambda>start.
       Inr (nodeInfo ''vue'' ''Vue.js'' files build start dependencies)))
     else
     e_bind (or_prop dependencies ''@angular/core'' (getProp devDependencies ''@angular/core'')) (\<lambda>angular.
     if truthy angular then
       e_bind (buildOrNull scripts) (\<lambda>build.
       e_bind (or_prop scripts ''start'' (Inr (JStr ''ng serve''))) (\<lambda>start.
       Inr (nodeInfo ''angular'' ''Angular'' files build start dependencies)))
     else
     e_bind (or_prop dependencies ''express''
              (or_prop dependencies ''fastify'' (getProp dependencies ''koa''))) (\<lambda>server.
     if truthy server then
       e_bind (buildScriptOrNull scripts) (\<lambda>build.
       e_bind (or_prop scripts ''start'' (Inr (JStr ''node index.js''))) (\<lambda>start.
       Inr (nodeInfo ''node'' ''Node.js Server'' files build start dependencies)))
     else
       e_bind (buildScriptOrNull scripts) (\<lambda>build.
       e_bind (or_prop scripts ''start'' (or_prop scripts ''dev'' (Inr (JStr ''node index.js'')))) (\<lambda>start.
       Inr (nodeInfo ''node'' ''Node.js'' files build start dependencies))))))))))"

definition analyzePythonProject :: "string list \<Rightarrow> obj" where
  "analyzePythonProject files =
     (if list_ex (\<lambda>f. includes_str f ''app.py'' \<or> includes_str f ''main.py'') files
      then [(''type'', JStr ''python''), (''framework'', JStr ''Python Web App''),
            (''files'', filesValue files),
            (''buildCommand'', JStr ''pip install -r requirements.txt''),
            (''startCommand'', JStr ''python app.py'')]
      else [(''type'', JStr ''python''), (''framework'', JStr ''Python''),
            (''files'', filesValue files),
            (''buildCommand'', JStr ''pip install -r requirements.txt''),
            (''startCommand'', JStr ''python main.py'')])"

definition analyzeStaticProject :: "string list \<Rightarrow> obj" where
  "analyzeStaticProject files =
     (let hasIndex = list_ex (\<lambda>f. endsWith f ''index.html'') files in
      [(''type'', JStr ''static''), (''framework'', JStr ''Static HTML''),
       (''files'', filesValue files), (''buildCommand'', JNull), (''startCommand'', JNull),
       (''entryPoint'',
          if hasIndex then JStr ''index.html''
          else (case find (\<lambda>f. endsWith f ''.html'') files of
                  None \<Rightarrow> JUndefined | Some f \<Rightarrow> JStr f))])"

definition rootFilesOf :: "string list \<Rightarrow> string list" where
  "rootFilesOf files = filter (\<lambda>f. \<not> includes_str f ''/'') files"

definition analyzeProject :: "(string \<Rightarrow> error + jsval) \<Rightarrow> fsnode list \<Rightarrow> error + obj" where
  "analyzeProject parse tree =
     (let files = getFileList tree [];
          rootFiles = rootFilesOf files in
      if ''package.json'' \<in> set rootFiles then
        analyzeNodeProject files (readPackageJson parse tree)
      else if ''requirements.txt'' \<in> set rootFiles \<or> ''Pipfile'' \<in> set rootFiles then
        Inr (analyzePythonProject files)
      else if ''Dockerfile'' \<in> set rootFiles then
        Inr [(''type'', JStr ''docker''), (''files'', filesValue files),
             (''buildCommand'', JStr ''docker build .''),
             (''startCommand'', JStr ''docker run'')]
      else if list_ex (\<lambda>f. endsWith f ''.html'') files then
        Inr (analyzeStaticProject files)
      else
        Inr [(''type'', JStr ''unknown''), (''files'', filesValue files),
             (''buildCommand'', JNull), (''startCommand'', JNull)])"

section \<open>ZipProcessor: extraction\<close>

text \<open>
  The processor's state: the directories under the temporary root with what they
  hold, the map \<^verbatim>\<open>extractedProjects\<close>, and the file-system calls made so far, in order.
\<close>

datatype fs_call = Mkdir string | ExtractAllTo string | Rm string

record zipProcessor =
  dirs :: "string \<rightharpoonup> fsnode list"
  extractedProjects :: "string \<rightharpoonup> obj"
  calls :: "fs_call list"

text \<open>
  What the platform and the archive library answer during one call of
  \<^verbatim>\<open>extract\<close>: \<^verbatim>\<open>path.isAbsolute\<close> and \<^verbatim>\<open>JSON.parse\<close>; the entry names
  \<^verbatim>\<open>new AdmZip(zipPath).getEntries()\<close> yields, or the error it throws; whether
  \<^verbatim>\<open>fs.mkdir\<close> fails; what \<^verbatim>\<open>extractAllTo\<close> leaves in the directory and the error it
  throws, if any; whether \<^verbatim>\<open>fs.rm\<close> fails.
\<close>

record io =
  pathIsAbsolute :: "string \<Rightarrow> bool"
  jsonParse :: "string \<Rightarrow> error + jsval"
  zipEntries :: "error + string list"
  mkdirError :: "error option"
  extractOutcome :: "fsnode list \<times> error option"
  rmError :: "error option"

text \<open>\<^verbatim>\<open>path.join(config.upload.tempDir, `extracted-${runId}`)\<close>, the leading \<^verbatim>\<open>./\<close> normalised away.\<close>

definition extractPathOf :: "string \<Rightarrow> string" where
  "extractPathOf runId = drop 2 upload_tempDir @ ''/'' @ ''extracted-'' @ runId"

definition mkdir :: "io \<Rightarrow> string \<Rightarrow> zipProcessor \<Rightarrow> error option \<times> zipProcessor" where
  "mkdir io p zp =
     (case mkdirError io of
        Some e \<Rightarrow> (Some e, zp\<lparr>calls := calls zp @ [Mkdir p]\<rparr>)
      | None \<Rightarrow>
          (None, zp\<lparr>dirs := (dirs zp)(p \<mapsto> (case dirs zp p of None \<Rightarrow> [] | Some t \<Rightarrow> t)),
                     calls := calls zp @ [Mkdir p]\<rparr>))"

definition extractAllTo :: "io \<Rightarrow> string \<Rightarrow> zipProcessor \<Rightarrow> error option \<times> zipProcessor" where
  "extractAllTo io p zp =
     (snd (extractOutcome io),
      zp\<lparr>dirs := (dirs zp)(p \<mapsto> fst (extractOutcome io)), calls := calls zp @ [ExtractAllTo p]\<rparr>)"

text \<open>\<^verbatim>\<open>fs.rm(p, { recursive: true, force: true })\<close>: a missing directory is no error.\<close>

definition rm :: "io \<Rightarrow> string \<Rightarrow> zipProcessor \<Rightarrow> error option \<times> zipProcessor" where
  "rm io p zp =
     (case rmError io of
        Some e \<Rightarrow> (Some e, zp\<lparr>calls := calls zp @ [Rm p]\<rparr>)
      | None \<Rightarrow> (None, zp\<lparr>dirs := (dirs zp)(p := None), calls := calls zp @ [Rm p]\<rparr>))"

definition tooManyFilesError :: "nat \<Rightarrow> error" where
  "tooManyFilesError n =
     Error (''ZIP contains too many files ('' @ decimal n @ '' > '' @ decimal upload_maxFiles @ '')'')"

definition unsafePathError :: "string \<Rightarrow> error" where
  "unsafePathError entryName = Error (''Unsafe file path in ZIP: '' @ entryName)"

definition tooDeepError :: "string \<Rightarrow> error" where
  "tooDeepError entryName = Error (''File path too deep: '' @ entryName)"

text \<open>The loop over the entries: the error of the first entry that fails a check.\<close>

fun validateEntries :: "io \<Rightarrow> string list \<Rightarrow> error option" where
  "validateEntries io [] = None"
| "validateEntries io (entryName # entries) =
     (if includes_str entryName ''..'' \<or> pathIsAbsolute io entryName then
        Some (unsafePathError entryName)
      else if length (split_slash entryName) > 20 then
        Some (tooDeepError entryName)
      else validateEntries io entries)"

text \<open>\<^verbatim>\<open>projectInfo.extractPath = extractPath\<close> on the properties of an object.\<close>

fun setProp :: "obj \<Rightarrow> string \<Rightarrow> jsval \<Rightarrow> obj" where
  "setProp [] k v = [(k, v)]"
| "setProp ((k', v') # ps) k v = (if k' = k then (k, v) # ps else (k', v') # setProp ps k v)"

text \<open>The \<^verbatim>\<open>try\<close> block of \<^verbatim>\<open>extract\<close>.\<close>

definition extract_try ::
  "io \<Rightarrow> zipProcessor \<Rightarrow> string \<Rightarrow> string \<Rightarrow> (error + obj) \<times> zipProcessor" where
  "extract_try io zp extractPath runId =
     (case zipEntries io of
        Inl e \<Rightarrow> (Inl e, zp)
      | Inr entries \<Rightarrow>
          if length entries > upload_maxFiles then (Inl (tooManyFilesError (length entries)), zp)
          else (case validateEntries io entries of
            Some e \<Rightarrow> (Inl e, zp)
          | None \<Rightarrow>
              (case mkdir io extractPath zp of
                 (Some e, zp1) \<Rightarrow> (Inl e, zp1)
               | (None, zp1) \<Rightarrow>
                   (case extractAllTo io extractPath zp1 of
                      (Some e, zp2) \<Rightarrow> (Inl e, zp2)
                    | (None, zp2) \<Rightarrow>
                        (case dirs zp2 extractPath of
                           None \<Rightarrow> (Inl (SystemError ''ENOENT''), zp2)
                         | Some tree \<Rightarrow>
                             (case analyzeProject (jsonParse io) tree of
                                Inl e \<Rightarrow> (Inl e, zp2)
                              | Inr info \<Rightarrow>
                                  (let projectInfo = setProp info ''extractPath'' (JStr extractPath)
                                   in (Inr projectInfo,
                                       zp2\<lparr>extractedProjects :=
                                              (extractedProjects zp2)(runId \<mapsto> projectInfo)\<rparr>))))))))"

text \<open>
  \<^verbatim>\<open>ZipProcessor.extract\<close>: the \<^verbatim>\<open>catch\<close> block removes the directory, swallows a
  failure of the removal (it is only logged) and throws the error again.
\<close>

definition extractZip :: "io \<Rightarrow> zipProcessor \<Rightarrow> string \<Rightarrow> (error + obj) \<times> zipProcessor" where
  "extractZip io zp runId =
     (let extractPath = extractPathOf runId in
      case extract_try io zp extractPath runId of
        (Inr projectInfo, zp') \<Rightarrow> (Inr projectInfo, zp')
      | (Inl e, zp') \<Rightarrow> (Inl e, snd (rm io extractPath zp')))"

text \<open>\<^verbatim>\<open>cleanup\<close>: a failing removal is logged, the map entry is deleted in any case.\<close>

definition cleanup :: "io \<Rightarrow> zipProcessor \<Rightarrow> string \<Rightarrow> zipProcessor" where
  "cleanup io zp runId =
     (let zp' = (case extractedProjects zp runId of
                   None \<Rightarrow> zp
                 | Some projectInfo \<Rightarrow>
                     (case objProp projectInfo ''extractPath'' of
                        JStr p \<Rightarrow> (if p \<noteq> [] then snd (rm io p zp) else zp)
                      | _ \<Rightarrow> zp))
      in zp'\<lparr>extractedProjects := (extractedProjects zp')(runId := None)\<rparr>)"

section \<open>RunStore\<close>

text \<open>
  A run is a plain object, a map from property names to values; the store is the
  \<^verbatim>\<open>Map\<close> from run ids, which are strings, to runs. \<open>runProp r k\<close> is \<^verbatim>\<open>r.k\<close>.
\<close>

type_synonym run = "string \<rightharpoonup> jsval"

type_synonym runStore = "string \<rightharpoonup> run"

definition runProp :: "run \<Rightarrow> string \<Rightarrow> jsval" where
  "runProp r k = (case r k of None \<Rightarrow> JUndefined | Some v \<Rightarrow> v)"

definition RunStore_create :: "runStore \<Rightarrow> run \<Rightarrow> runStore" where
  "RunStore_create runs run = (case runProp run ''id'' of JStr i \<Rightarrow> runs(i \<mapsto> run) | _ \<Rightarrow> runs)"

definition RunStore_get :: "runStore \<Rightarrow> string \<Rightarrow> run option" where
  "RunStore_get runs i = runs i"

text \<open>
  \<^verbatim>\<open>update(id, updates)\<close>: the spread \<^verbatim>\<open>{ ...existing, ...updates, updatedAt }\<close> is the
  map \<open>existing\<close> overridden by \<open>updates\<close> and then by the time stamp \<open>now\<close>, the value of
  \<^verbatim>\<open>new Date().toISOString()\<close>. The result is the new store and the returned value,
  \<open>None\<close> for \<^verbatim>\<open>null\<close>.
\<close>

definition RunStore_update :: "runStore \<Rightarrow> string \<Rightarrow> run \<Rightarrow> string \<Rightarrow> runStore \<times> run option" where
  "RunStore_update runs i updates now =
     (case runs i of
        Some existing \<Rightarrow>
          (let updated = (existing ++ updates)(''updatedAt'' \<mapsto> JStr now)
           in (runs(i \<mapsto> updated), Some updated))
      | None \<Rightarrow> (runs, None))"

definition RunStore_delete :: "runStore \<Rightarrow> string \<Rightarrow> runStore \<times> bool" where
  "RunStore_delete runs i = (runs(i := None), runs i \<noteq> None)"

section \<open>WorkerManager and Worker\<close>

text \<open>
  Worker objects are mutated through several references (the manager's map, the
  local variable of \<^verbatim>\<open>processRun\<close>), so they live in a heap: the list of all Worker
  objects constructed so far, a reference being a position in it. The field
  \<^verbatim>\<open>process\<close> is \<^verbatim>\<open>null\<close> throughout and is left out; \<open>w_healthCheckInterval\<close> tells
  whether the interval timer of \<^verbatim>\<open>simulateStart\<close> is running.
\<close>

datatype worker_status = Created | Starting | Running | Failed | Stopping | Stopped

record worker =
  w_id :: string
  w_runId :: string
  w_port :: nat
  w_projectPath :: jsval
  w_projectType :: jsval
  w_buildCommand :: jsval
  w_startCommand :: jsval
  w_status :: worker_status
  w_startTime :: "int option"
  w_healthCheckInterval :: bool

record workerManager =
  workers :: "string \<rightharpoonup> nat"
  nextPort :: nat

definition WorkerManager_new :: workerManager where
  "WorkerManager_new = \<lparr>workers = Map.empty, nextPort = 8000\<rparr>"

text \<open>\<^verbatim>\<open>workerManager.get(v)\<close>: the keys of the map are strings.\<close>

definition WorkerManager_get :: "workerManager \<Rightarrow> jsval \<Rightarrow> nat option" where
  "WorkerManager_get wm v = (case v of JStr workerId \<Rightarrow> workers wm workerId | _ \<Rightarrow> None)"

text \<open>
  \<^verbatim>\<open>WorkerManager.start\<close> up to its first suspension: the Worker is constructed and
  registered, and \<^verbatim>\<open>Worker.start\<close> has set the status and the start time and waits for
  the build timer. The result is the reference of the new Worker.
\<close>

definition WorkerManager_start_begin ::
  "string \<Rightarrow> jsval \<Rightarrow> jsval \<Rightarrow> jsval \<Rightarrow> jsval \<Rightarrow> int \<Rightarrow> workerManager \<times> worker list
     \<Rightarrow> nat \<times> workerManager \<times> worker list" where
  "WorkerManager_start_begin runId projectPath projectType buildCommand startCommand now st =
     (let wm = fst st; heap = snd st;
          worker = \<lparr>w_id = ''worker-'' @ runId, w_runId = runId, w_port = nextPort wm,
                    w_projectPath = projectPath, w_projectType = projectType,
                    w_buildCommand = buildCommand, w_startCommand = startCommand,
                    w_status = Created, w_startTime = None, w_healthCheckInterval = False\<rparr>;
          ref = length heap;
          wm' = wm\<lparr>nextPort := nextPort wm + 1, workers := (workers wm)(w_id worker \<mapsto> ref)\<rparr>
      in (ref, wm', heap @ [worker\<lparr>w_status := Starting, w_startTime := Some now\<rparr>]))"

text \<open>
  The build timer has fired and \<^verbatim>\<open>Math.random()\<close> was below 0.05: \<^verbatim>\<open>Worker.start\<close> marks
  the Worker failed, \<^verbatim>\<open>WorkerManager.start\<close> drops the map entry of its id, and the
  error travels on.
\<close>

definition WorkerManager_start_failed ::
  "nat \<Rightarrow> workerManager \<times> worker list \<Rightarrow> error \<times> workerManager \<times> worker list" where
  "WorkerManager_start_failed ref st =
     (let wm = fst st; heap = snd st
      in (Error ''Simulated build failure'',
          wm\<lparr>workers := (workers wm)(w_id (heap ! ref) := None)\<rparr>,
          heap[ref := (heap ! ref)\<lparr>w_status := Failed\<rparr>]))"

text \<open>The start timer has fired: the health check is scheduled and the Worker runs.\<close>

definition WorkerManager_start_finish :: "nat \<Rightarrow> worker list \<Rightarrow> worker list" where
  "WorkerManager_start_finish ref heap =
     heap[ref := (heap ! ref)\<lparr>w_healthCheckInterval := True, w_status := Running\<rparr>]"

definition Worker_stop :: "worker \<Rightarrow> worker" where
  "Worker_stop w = w\<lparr>w_healthCheckInterval := False, w_status := Stopped\<rparr>"

text \<open>\<^verbatim>\<open>workers.delete(v)\<close>: only a string can be a key of the map.\<close>

definition WorkerManager_forget :: "workerManager \<Rightarrow> jsval \<Rightarrow> workerManager" where
  "WorkerManager_forget wm v =
     (case v of JStr workerId \<Rightarrow> wm\<lparr>workers := (workers wm)(workerId := None)\<rparr> | _ \<Rightarrow> wm)"

definition WorkerManager_stop ::
  "jsval \<Rightarrow> workerManager \<times> worker list \<Rightarrow> workerManager \<times> worker list" where
  "WorkerManager_stop workerId st =
     (let wm = fst st; heap = snd st in
      case WorkerManager_get wm workerId of
        None \<Rightarrow> (wm, heap)
      | Some ref \<Rightarrow> (WorkerManager_forget wm workerId, heap[ref := Worker_stop (heap ! ref)]))"

text \<open>
  One turn of the loop of \<^verbatim>\<open>waitUntilReady\<close>, entered at time \<open>startTime\<close> and looking at
  the Worker at time \<open>now\<close>: it returns, throws, or sleeps for 100 ms and turns again.
\<close>

datatype wait_outcome = Resolved | Rejected error | Sleep

definition waitUntilReady_turn :: "worker \<Rightarrow> int \<Rightarrow> int \<Rightarrow> int \<Rightarrow> wait_outcome" where
  "waitUntilReady_turn w startTime now timeout =
     (if w_status w \<noteq> Running \<and> w_status w \<noteq> Failed then
        (if now - startTime > timeout then Rejected (Error ''Worker startup timeout'') else Sleep)
      else if w_status w = Failed then Rejected (Error ''Worker failed to start'')
      else Resolved)"

section \<open>Response bodies\<close>

text \<open>
  The pages and stubs the services send are template literals. A body is the
  template together with the values interpolated into it; the literal text of a
  template is not repeated here.
\<close>

datatype body =
    NotFoundPage
  | NotReadyPage jsval
  | PreviewError
  | FallbackPage jsval string jsval
  | FallbackScript string jsval
  | FallbackStyle string
  | FallbackText string jsval
  | WorkerPage jsval string string nat
  | WorkerScript string string
  | WorkerStyle string
  | WorkerText string

text \<open>\<^verbatim>\<open>toUpperCase\<close> on the ASCII letters, which is all a project type contains.\<close>

definition upperChar :: "char \<Rightarrow> char" where
  "upperChar c =
     (case map_of (zip ''abcdefghijklmnopqrstuvwxyz'' ''ABCDEFGHIJKLMNOPQRSTUVWXYZ'') c of
        None \<Rightarrow> c | Some u \<Rightarrow> u)"

definition toUpperCase :: "jsval \<Rightarrow> error + string" where
  "toUpperCase v = (case v of JStr s \<Rightarrow> Inr (map upperChar s) | _ \<Rightarrow> Inl TypeError)"

definition orElse :: "jsval \<Rightarrow> jsval \<Rightarrow> jsval" where
  "orElse a b = (if truthy a then a else b)"

definition Worker_generateSimulatedContent :: "worker \<Rightarrow> string \<Rightarrow> error + body" where
  "Worker_generateSimulatedContent w path =
     (if path = [] \<or> path = ''index.html'' then
        e_bind (toUpperCase (w_projectType w))
          (\<lambda>badge. Inr (WorkerPage (w_projectType w) badge (w_id w) (w_port w)))
      else if endsWith path ''.js'' then Inr (WorkerScript path (w_id w))
      else if endsWith path ''.css'' then Inr (WorkerStyle path)
      else Inr (WorkerText (''Simulated content for '' @ path)))"

definition Worker_getContent :: "worker \<Rightarrow> string \<Rightarrow> error + body" where
  "Worker_getContent w path =
     (if w_status w \<noteq> Running then Inl (Error ''Worker not running'')
      else Worker_generateSimulatedContent w path)"

section \<open>Preview route\<close>

record response =
  res_status :: nat
  res_headers :: "string \<rightharpoonup> string"
  res_body :: body

text \<open>The headers \<^verbatim>\<open>securityMiddleware.preview\<close> sets on every preview response.\<close>

definition securityMiddleware_preview :: "string \<rightharpoonup> string" where
  "securityMiddleware_preview =
     [''X-Content-Type-Options'' \<mapsto> ''nosniff'',
      ''X-Frame-Options'' \<mapsto> ''SAMEORIGIN'',
      ''X-XSS-Protection'' \<mapsto> ''1; mode=block'',
      ''Referrer-Policy'' \<mapsto> ''no-referrer'',
      ''Cross-Origin-Resource-Policy'' \<mapsto> ''same-origin'',
      ''Cross-Origin-Embedder-Policy'' \<mapsto> ''require-corp'',
      ''Cross-Origin-Opener-Policy'' \<mapsto> ''same-origin'']"

definition getCSPForProject :: "jsval \<Rightarrow> string" where
  "getCSPForProject projectType =
     (if projectType = JStr ''static'' then csp_strict
      else if projectType = JStr ''react'' \<or> projectType = JStr ''vue''
              \<or> projectType = JStr ''angular'' then csp_relaxed
      else csp_strict)"

definition getContentType :: "string \<Rightarrow> string" where
  "getContentType path =
     (if path = [] \<or> endsWith path ''/'' \<or> endsWith path ''.html'' then ''text/html''
      else if endsWith path ''.js'' then ''application/javascript''
      else if endsWith path ''.css'' then ''text/css''
      else if endsWith path ''.json'' then ''application/json''
      else if endsWith path ''.png'' then ''image/png''
      else if endsWith path ''.jpg'' \<or> endsWith path ''.jpeg'' then ''image/jpeg''
      else ''text/plain'')"

definition generateFallbackContent :: "string \<Rightarrow> run \<Rightarrow> error + body" where
  "generateFallbackContent path run =
     (if path = [] \<or> path = ''index.html'' then
        e_bind (toUpperCase (orElse (runProp run ''projectType'') (JStr ''UNKNOWN'')))
          (\<lambda>badge. Inr (FallbackPage (orElse (runProp run ''projectType'') (JStr ''Unknown''))
                           badge (runProp run ''id'')))
      else if endsWith path ''.js'' then Inr (FallbackScript path (runProp run ''id''))
      else if endsWith path ''.css'' then Inr (FallbackStyle path)
      else Inr (FallbackText (''Simulated content for '' @ path @ '' in run '') (runProp run ''id'')))"

text \<open>The two \<^verbatim>\<open>res.set\<close> calls of the handler, on top of the middleware's headers.\<close>

definition previewHeaders :: "run \<Rightarrow> string \<Rightarrow> string \<rightharpoonup> string" where
  "previewHeaders run requestPath =
     securityMiddleware_preview ++
     [''Content-Security-Policy'' \<mapsto> getCSPForProject (runProp run ''projectType''),
      ''X-Frame-Options'' \<mapsto> ''SAMEORIGIN'',
      ''X-Content-Type-Options'' \<mapsto> ''nosniff'',
      ''Referrer-Policy'' \<mapsto> ''no-referrer'',
      ''Cross-Origin-Resource-Policy'' \<mapsto> ''same-origin'',
      ''Cache-Control'' \<mapsto> ''no-store, no-cache, must-revalidate'',
      ''Pragma'' \<mapsto> ''no-cache'',
      ''Content-Type'' \<mapsto> getContentType requestPath]"

text \<open>
  \<^verbatim>\<open>GET /preview/:runId/*\<close> on the store and the manager of the preview module;
  \<open>requestPath\<close> is \<^verbatim>\<open>req.params[0] || ''\<close>. An error thrown while the content is
  produced ends in the \<^verbatim>\<open>catch\<close> block, before any header of the handler is set.
\<close>

definition preview ::
  "runStore \<Rightarrow> workerManager \<Rightarrow> worker list \<Rightarrow> string \<Rightarrow> string \<Rightarrow> response" where
  "preview runs wm heap runId requestPath =
     (case RunStore_get runs runId of
        None \<Rightarrow>
          \<lparr>res_status = 404, res_headers = securityMiddleware_preview, res_body = NotFoundPage\<rparr>
      | Some run \<Rightarrow>
          if runProp run ''status'' \<noteq> JStr ''ready'' then
            \<lparr>res_status = 503, res_headers = securityMiddleware_preview,
             res_body = NotReadyPage (runProp run ''status'')\<rparr>
          else
            (case (if truthy (runProp run ''workerId'') then
                     (case WorkerManager_get wm (runProp run ''workerId'') of
                        Some ref \<Rightarrow> Worker_getContent (heap ! ref) requestPath
                      | None \<Rightarrow> generateFallbackContent requestPath run)
                   else generateFallbackContent requestPath run) of
               Inl e \<Rightarrow>
                 \<lparr>res_status = 500, res_headers = securityMiddleware_preview,
                  res_body = PreviewError\<rparr>
             | Inr content \<Rightarrow>
                 \<lparr>res_status = 200, res_headers = previewHeaders run requestPath,
                  res_body = content\<rparr>))"

section \<open>Runs route and orchestration\<close>

text \<open>
  The state of the runs module: its store, its manager with the heap of Workers,
  its processor, and for every run id ever issued the point at which its
  \<^verbatim>\<open>processRun\<close> call is suspended. Everything between two suspensions runs without
  interruption, as JavaScript does, so \<^verbatim>\<open>processRun\<close> is cut at its suspensions:
  the extraction, the build timer and the start timer of the Worker, and the sleep of
  \<^verbatim>\<open>waitUntilReady\<close>. A \<open>clock\<close> is what \<^verbatim>\<open>Date.now()\<close> and
  \<^verbatim>\<open>new Date().toISOString()\<close> return during one such piece.
\<close>

record clock =
  nowMs :: int
  nowIso :: string

record upload =
  file_path :: string
  file_originalname :: string
  file_size :: nat

datatype task = AwaitExtract | AwaitBuild nat | AwaitStart nat | AwaitReady nat int | Finished

record server =
  runStore :: runStore
  workerManager :: workerManager
  heap :: "worker list"
  zipProcessor :: zipProcessor
  tasks :: "string \<rightharpoonup> task"

definition initial :: server where
  "initial = \<lparr>runStore = Map.empty, workerManager = WorkerManager_new, heap = [],
              zipProcessor = \<lparr>dirs = Map.empty, extractedProjects = Map.empty, calls = []\<rparr>,
              tasks = Map.empty\<rparr>"

text \<open>\<^verbatim>\<open>runStore.update(id, updates)\<close> as a statement: the returned value is dropped.\<close>

definition update_run :: "string \<Rightarrow> run \<Rightarrow> clock \<Rightarrow> server \<Rightarrow> server" where
  "update_run runId updates clk s =
     s\<lparr>runStore := fst (RunStore_update (runStore s) runId updates (nowIso clk))\<rparr>"

text \<open>
  The \<^verbatim>\<open>catch\<close> block of \<^verbatim>\<open>processRun\<close>, followed by the \<^verbatim>\<open>catch\<close> callback of the
  upload handler, which receives the error thrown again.
\<close>

definition processRun_catch :: "string \<Rightarrow> error \<Rightarrow> clock \<Rightarrow> server \<Rightarrow> server" where
  "processRun_catch runId e clk s =
     (let s1 = update_run runId
                 [''status'' \<mapsto> JStr ''failed'', ''error'' \<mapsto> JStr (message e),
                  ''failedAt'' \<mapsto> JStr (nowIso clk)] clk s;
          s2 = update_run runId
                 [''status'' \<mapsto> JStr ''failed'', ''error'' \<mapsto> JStr (message e)] clk s1
      in s2\<lparr>tasks := (tasks s2)(runId \<mapsto> Finished)\<rparr>)"

text \<open>
  \<^verbatim>\<open>POST /api/runs\<close> with the uploaded file and the fresh id \<^verbatim>\<open>uuidv4()\<close>: the run is
  created and \<^verbatim>\<open>processRun\<close> runs up to the extraction.
\<close>

definition post_run :: "string \<Rightarrow> upload \<Rightarrow> clock \<Rightarrow> server \<Rightarrow> server" where
  "post_run runId file clk s =
     (let run = [''id'' \<mapsto> JStr runId, ''status'' \<mapsto> JStr ''queued'',
                 ''createdAt'' \<mapsto> JStr (nowIso clk), ''filePath'' \<mapsto> JStr (file_path file),
                 ''originalName'' \<mapsto> JStr (file_originalname file),
                 ''fileSize'' \<mapsto> JNum (of_nat (file_size file))];
          s1 = s\<lparr>runStore := RunStore_create (runStore s) run\<rparr>;
          s2 = update_run runId [''status'' \<mapsto> JStr ''extracting''] clk s1
      in s2\<lparr>tasks := (tasks s2)(runId \<mapsto> AwaitExtract)\<rparr>)"

text \<open>
  The extraction has ended. On success the run becomes \<^verbatim>\<open>building\<close> and
  \<^verbatim>\<open>workerManager.start\<close> begins; the Worker waits for its build timer.
\<close>

definition processRun_extracted :: "string \<Rightarrow> io \<Rightarrow> clock \<Rightarrow> server \<Rightarrow> server" where
  "processRun_extracted runId io clk s =
     (case extractZip io (zipProcessor s) runId of
        (Inl e, zp) \<Rightarrow> processRun_catch runId e clk (s\<lparr>zipProcessor := zp\<rparr>)
      | (Inr projectInfo, zp) \<Rightarrow>
          (let s1 = update_run runId
                      [''status'' \<mapsto> JStr ''building'',
                       ''projectType'' \<mapsto> objProp projectInfo ''type'',
                       ''projectInfo'' \<mapsto> JObj projectInfo] clk (s\<lparr>zipProcessor := zp\<rparr>);
               started = WorkerManager_start_begin runId
                           (objProp projectInfo ''extractPath'') (objProp projectInfo ''type'')
                           (objProp projectInfo ''buildCommand'')
                           (objProp projectInfo ''startCommand'')
                           (nowMs clk) (workerManager s1, heap s1)
           in s1\<lparr>workerManager := fst (snd started), heap := snd (snd started),
                   tasks := (tasks s1)(runId \<mapsto> AwaitBuild (fst started))\<rparr>))"

definition processRun_ready :: "string \<Rightarrow> clock \<Rightarrow> server \<Rightarrow> server" where
  "processRun_ready runId clk s =
     (let s1 = update_run runId
                 [''status'' \<mapsto> JStr ''ready'', ''previewUrl'' \<mapsto> JStr (''/preview/'' @ runId),
                  ''readyAt'' \<mapsto> JStr (nowIso clk)] clk s
      in s1\<lparr>tasks := (tasks s1)(runId \<mapsto> Finished)\<rparr>)"

text \<open>\<^verbatim>\<open>await worker.waitUntilReady()\<close> with the default timeout, and what follows it.\<close>

definition processRun_wait :: "string \<Rightarrow> nat \<Rightarrow> int \<Rightarrow> clock \<Rightarrow> server \<Rightarrow> server" where
  "processRun_wait runId ref startTime clk s =
     (case waitUntilReady_turn (heap s ! ref) startTime (nowMs clk) 30000 of
        Resolved \<Rightarrow> processRun_ready runId clk s
      | Rejected e \<Rightarrow> processRun_catch runId e clk s
      | Sleep \<Rightarrow> s\<lparr>tasks := (tasks s)(runId \<mapsto> AwaitReady ref startTime)\<rparr>)"

text \<open>The build timer has fired; \<open>ok\<close> tells that \<^verbatim>\<open>Math.random()\<close> was not below 0.05.\<close>

definition processRun_built :: "string \<Rightarrow> nat \<Rightarrow> bool \<Rightarrow> clock \<Rightarrow> server \<Rightarrow> server" where
  "processRun_built runId ref ok clk s =
     (if ok then s\<lparr>tasks := (tasks s)(runId \<mapsto> AwaitStart ref)\<rparr>
      else
        (let failed = WorkerManager_start_failed ref (workerManager s, heap s)
         in processRun_catch runId (fst failed) clk
              (s\<lparr>workerManager := fst (snd failed), heap := snd (snd failed)\<rparr>)))"

text \<open>
  The start timer has fired: \<^verbatim>\<open>workerManager.start\<close> returns the Worker, its id and
  port are recorded, and \<^verbatim>\<open>waitUntilReady\<close> is entered.
\<close>

definition processRun_started :: "string \<Rightarrow> nat \<Rightarrow> clock \<Rightarrow> server \<Rightarrow> server" where
  "processRun_started runId ref clk s =
     (let s1 = s\<lparr>heap := WorkerManager_start_finish ref (heap s)\<rparr>;
          worker = heap s1 ! ref;
          s2 = update_run runId
                 [''status'' \<mapsto> JStr ''building'', ''workerId'' \<mapsto> JStr (w_id worker),
                  ''workerPort'' \<mapsto> JNum (of_nat (w_port worker))] clk s1
      in processRun_wait runId ref (nowMs clk) clk s2)"

text \<open>\<^verbatim>\<open>DELETE /api/runs/:id\<close>.\<close>

definition delete_run :: "string \<Rightarrow> io \<Rightarrow> server \<Rightarrow> server" where
  "delete_run runId io s =
     (case RunStore_get (runStore s) runId of
        None \<Rightarrow> s
      | Some run \<Rightarrow>
          (let stopped = (if truthy (runProp run ''workerId'')
                          then WorkerManager_stop (runProp run ''workerId'') (workerManager s, heap s)
                          else (workerManager s, heap s))
           in s\<lparr>workerManager := fst stopped, heap := snd stopped,
                 runStore := fst (RunStore_delete (runStore s) runId),
                 zipProcessor := cleanup io (zipProcessor s) runId\<rparr>))"

text \<open>
  What can happen to the server: an upload arrives (without a file it is answered
  with status 400 and changes nothing), a suspended \<^verbatim>\<open>processRun\<close> is resumed, a run
  is deleted. An upload draws an id that was never issued before.
\<close>

datatype event =
    Post string "upload option" clock
  | ExtractDone string io clock
  | BuildDone string bool clock
  | StartDone string clock
  | Poll string clock
  | Delete string io

fun enabled :: "event \<Rightarrow> server \<Rightarrow> bool" where
  "enabled (Post runId file clk) s = (tasks s runId = None)"
| "enabled (ExtractDone runId io clk) s = (tasks s runId = Some AwaitExtract)"
| "enabled (BuildDone runId ok clk) s =
     (case tasks s runId of Some (AwaitBuild ref) \<Rightarrow> True | _ \<Rightarrow> False)"
| "enabled (StartDone runId clk) s =
     (case tasks s runId of Some (AwaitStart ref) \<Rightarrow> True | _ \<Rightarrow> False)"
| "enabled (Poll runId clk) s =
     (case tasks s runId of Some (AwaitReady ref startTime) \<Rightarrow> True | _ \<Rightarrow> False)"
| "enabled (Delete runId io) s = True"

fun fire :: "event \<Rightarrow> server \<Rightarrow> server" where
  "fire (Post runId file clk) s =
     (case file of None \<Rightarrow> s | Some f \<Rightarrow> post_run runId f clk s)"
| "fire (ExtractDone runId io clk) s = processRun_extracted runId io clk s"
| "fire (BuildDone runId ok clk) s =
     (case tasks s runId of Some (AwaitBuild ref) \<Rightarrow> processRun_built runId ref ok clk s | _ \<Rightarrow> s)"
| "fire (StartDone runId clk) s =
     (case tasks s runId of Some (AwaitStart ref) \<Rightarrow> processRun_started runId ref clk s | _ \<Rightarrow> s)"
| "fire (Poll runId clk) s =
     (case tasks s runId of
        Some (AwaitReady ref startTime) \<Rightarrow> processRun_wait runId ref startTime clk s
      | _ \<Rightarrow> s)"
| "fire (Delete runId io) s = delete_run runId io s"

inductive reachable :: "server \<Rightarrow> bool" where
  init: "reachable initial"
| step: "reachable s \<Longrightarrow> enabled e s \<Longrightarrow> reachable (fire e s)"

text \<open>A sequence of events from a state, each fired only where it can happen.\<close>

fun run_events :: "event list \<Rightarrow> server \<Rightarrow> server option" where
  "run_events [] s = Some s"
| "run_events (e # es) s = (if enabled e s then run_events es (fire e s) else None)"

section \<open>The preview module in the server\<close>

text \<open>
  The preview module constructs a store and a manager of its own
  (\<^verbatim>\<open>new RunStore()\<close>, \<^verbatim>\<open>new WorkerManager()\<close>), apart from those of the runs module, and
  its handler only reads them. Nothing in the repository writes to them, so they stay
  as constructed whatever happens to the server, and \<open>get_preview\<close> is what
  \<^verbatim>\<open>GET /preview/:runId/*\<close> answers in every state.
\<close>

definition preview_runStore :: runStore where
  "preview_runStore = Map.empty"

definition preview_workerManager :: workerManager where
  "preview_workerManager = WorkerManager_new"

definition get_preview :: "string \<Rightarrow> string \<Rightarrow> response" where
  "get_preview runId requestPath =
     preview preview_runStore preview_workerManager [] runId requestPath"

section \<open>Notions of the specification\<close>

text \<open>
  A parent-directory traversal segment: one of the segments of the entry name, cut
  at the slashes, is \<^verbatim>\<open>..\<close>.
\<close>

definition hasTraversalSegment :: "string \<Rightarrow> bool" where
  "hasTraversalSegment entryName = (''..'' \<in> set (split_slash entryName))"

text \<open>
  The specification calls \<open>UnsafeArchive\<close> the errors of the three checks on the
  entries: the entry count, the unsafe path and the nesting depth.
\<close>

definition UnsafeArchive :: "string list \<Rightarrow> error \<Rightarrow> bool" where
  "UnsafeArchive entries e \<longleftrightarrow>
     e = tooManyFilesError (length entries) \<or>
     list_ex (\<lambda>n. e = unsafePathError n \<or> e = tooDeepError n) entries"

text \<open>\<^verbatim>\<open>path.isAbsolute\<close> as it is on a POSIX platform, for the concrete examples.\<close>

definition isAbsolute_posix :: "string \<Rightarrow> bool" where
  "isAbsolute_posix p = (case p of [] \<Rightarrow> False | c # cs \<Rightarrow> c = CHR ''/'')"

definition emptyProcessor :: zipProcessor where
  "emptyProcessor = \<lparr>dirs = Map.empty, extractedProjects = Map.empty, calls = []\<rparr>"

text \<open>
  For the concrete examples: the manifest text \<^verbatim>\<open>{"dependencies":{"d":"v"}}\<close> for a
  package name \<open>d\<close> and a version string \<open>v\<close>, the value \<^verbatim>\<open>JSON.parse\<close> gives for it,
  and \<^verbatim>\<open>JSON.parse\<close> as far as this one text goes.
\<close>

definition dquoted :: "string \<Rightarrow> string" where
  "dquoted s = CHR 0x22 # s @ [CHR 0x22]"

definition manifestText :: "string \<Rightarrow> string \<Rightarrow> string" where
  "manifestText dep version =
     concat [''{'', dquoted ''dependencies'', '':{'', dquoted dep, '':'', dquoted version, ''}}'']"

definition manifestValue :: "string \<Rightarrow> string \<Rightarrow> jsval" where
  "manifestValue dep version = JObj [(''dependencies'', JObj [(dep, JStr version)])]"

definition parseManifest :: "string \<Rightarrow> string \<Rightarrow> string \<Rightarrow> error + jsval" where
  "parseManifest dep version text =
     (if text = manifestText dep version then Inr (manifestValue dep version) else Inl SyntaxError)"

text \<open>\<^verbatim>\<open>JSON.parse\<close> as far as the one text \<^verbatim>\<open>null\<close> goes.\<close>

definition parseNull :: "string \<Rightarrow> error + jsval" where
  "parseNull text = (if text = ''null'' then Inr JNull else Inl SyntaxError)"

section \<open>Invariants of the orchestration\<close>

text \<open>
  A run that is still being processed has neither of the final states and neither a
  preview URL nor an error; a run whose processing has ended is ready with a preview
  URL and no error, or failed with an error and no preview URL.
\<close>

definition pending :: "run \<Rightarrow> bool" where
  "pending run \<longleftrightarrow>
     run ''status'' \<noteq> Some (JStr ''ready'') \<and> run ''status'' \<noteq> Some (JStr ''failed'') \<and>
     run ''previewUrl'' = None \<and> run ''error'' = None"

definition settled :: "run \<Rightarrow> bool" where
  "settled run \<longleftrightarrow>
     (run ''status'' = Some (JStr ''ready'') \<and> run ''previewUrl'' \<noteq> None \<and> run ''error'' = None) \<or>
     (run ''status'' = Some (JStr ''failed'') \<and> run ''error'' \<noteq> None \<and> run ''previewUrl'' = None)"

fun task_ok :: "task option \<Rightarrow> run \<Rightarrow> bool" where
  "task_ok None run = False"
| "task_ok (Some Finished) run = settled run"
| "task_ok (Some t) run = pending run"

definition run_inv :: "server \<Rightarrow> bool" where
  "run_inv s \<longleftrightarrow> (\<forall>i run. runStore s i = Some run \<longrightarrow> task_ok (tasks s i) run)"

text \<open>
  No two Worker objects belong to the same run, and a run has a Worker only once its
  extraction has ended.
\<close>

definition worker_inv :: "server \<Rightarrow> bool" where
  "worker_inv s \<longleftrightarrow>
     distinct (map w_runId (heap s)) \<and>
     (\<forall>i\<in>set (map w_runId (heap s)). tasks s i \<noteq> None \<and> tasks s i \<noteq> Some AwaitExtract)"

text \<open>A Worker is live while it is starting or running.\<close>

definition live :: "worker \<Rightarrow> bool" where
  "live w \<longleftrightarrow> w_status w = Starting \<or> w_status w = Running"

text \<open>
  For the concrete examples: an archive with one page, extracted without failure, its
  upload, and a clock whose time stamp is written as the decimal number of milliseconds.
\<close>

definition staticArchive :: io where
  "staticArchive =
     \<lparr>pathIsAbsolute = isAbsolute_posix, jsonParse = parseManifest ''react'' [],
      zipEntries = Inr [''index.html''], mkdirError = None,
      extractOutcome = ([File ''index.html'' (Some ''<html>'')], None), rmError = None\<rparr>"

definition uploadedZip :: upload where
  "uploadedZip = \<lparr>file_path = ''temp/upload-1'', file_originalname = ''site.zip'', file_size = 120\<rparr>"

definition clockAt :: "int \<Rightarrow> clock" where
  "clockAt ms = \<lparr>nowMs = ms, nowIso = decimal (nat ms)\<rparr>"

text \<open>
  For the concrete examples: an upload that is processed to the end, and an upload
  whose run is deleted while its Worker is being built.
\<close>

definition readyTrace :: "event list" where
  "readyTrace =
     [Post ''r1'' (Some uploadedZip) (clockAt 0), ExtractDone ''r1'' staticArchive (clockAt 10),
      BuildDone ''r1'' True (clockAt 510), StartDone ''r1'' (clockAt 1510)]"

definition deletedTrace :: "event list" where
  "deletedTrace =
     [Post ''r1'' (Some uploadedZip) (clockAt 0), ExtractDone ''r1'' staticArchive (clockAt 10),
      Delete ''r1'' staticArchive,
      BuildDone ''r1'' True (clockAt 510), StartDone ''r1'' (clockAt 1510)]"

section \<open>Properties\<close>

subsection \<open>Helper facts\<close>

lemma e_bind_Inr: "e_bind m f = Inr r \<longleftrightarrow> (\<exists>v. m = Inr v \<and> f v = Inr r)"
  by (cases m) (simp_all add: e_bind_def)

lemma e_bind_simps [simp]: "e_bind (Inl e) f = Inl e" "e_bind (Inr v) f = f v"
  by (simp_all add: e_bind_def)

lemma nodeInfo_type: "objProp (nodeInfo t fw files b s d) ''type'' = JStr t"
  by (simp add: nodeInfo_def objProp_def)

lemma analyzeNodeProject_empty:
  "analyzeNodeProject files (JObj []) =
     Inr (nodeInfo ''node'' ''Node.js'' files JNull (JStr ''node index.js'') (JObj []))"
  by (simp add: analyzeNodeProject_def destructure_def or_prop_def buildScriptOrNull_def
      objProp_def)

subsection \<open>Manifest failures\<close>

text \<open>
  C9. When the root listing shows \<^verbatim>\<open>package.json\<close> and the file cannot be read, or its
  text is rejected by \<^verbatim>\<open>JSON.parse\<close>, \<^verbatim>\<open>readPackageJson\<close> returns the empty object and the
  classification does not fail: it returns the default Node.js description, with no
  build command and \<^verbatim>\<open>node index.js\<close> as start command.
\<close>

theorem unparsable_manifest_degrades:
  assumes "''package.json'' \<in> set (rootFilesOf (getFileList tree []))"
    and "readFile tree ''package.json'' = Inl e \<or>
         (readFile tree ''package.json'' = Inr content \<and> parse content = Inl e')"
  shows "readPackageJson parse tree = JObj [] \<and>
         analyzeProject parse tree =
           Inr (nodeInfo ''node'' ''Node.js'' (getFileList tree []) JNull
                  (JStr ''node index.js'') (JObj []))"
proof -
  from assms(2) have empty: "readPackageJson parse tree = JObj []"
    by (auto simp: readPackageJson_def)
  with assms(1) show ?thesis
    by (simp add: analyzeProject_def Let_def analyzeNodeProject_empty)
qed

theorem unparsable_manifest_degrades_witness:
  "''package.json'' \<in> set (rootFilesOf (getFileList
      [File ''package.json'' (Some ''{ name: ''), File ''Dockerfile'' (Some [])] [])) \<and>
   readFile [File ''package.json'' (Some ''{ name: ''), File ''Dockerfile'' (Some [])]
      ''package.json'' = Inr ''{ name: '' \<and>
   analyzeProject (\<lambda>text. Inl SyntaxError)
      [File ''package.json'' (Some ''{ name: ''), File ''Dockerfile'' (Some [])] =
     Inr [(''type'', JStr ''node''), (''framework'', JStr ''Node.js''),
          (''files'', JArr [JStr ''package.json'', JStr ''Dockerfile'']),
          (''buildCommand'', JNull), (''startCommand'', JStr ''node index.js''),
          (''dependencies'', JArr [])]"
proof -
  let ?tree = "[File ''package.json'' (Some ''{ name: ''), File ''Dockerfile'' (Some [])]"
  have root: "''package.json'' \<in> set (rootFilesOf (getFileList ?tree []))"
    by (simp add: rootFilesOf_def getFileList_def relativePath_def)
  have unparsable: "readFile ?tree ''package.json'' = Inl TypeError \<or>
      (readFile ?tree ''package.json'' = Inr ''{ name: '' \<and>
       (\<lambda>text. Inl SyntaxError) ''{ name: '' = (Inl SyntaxError :: error + jsval))"
    by simp
  from unparsable_manifest_degrades [OF root unparsable] root show ?thesis
    by (simp add: nodeInfo_def filesValue_def getFileList_def relativePath_def)
qed

subsection \<open>Extraction\<close>

lemma split_slash_nonempty: "split_slash s \<noteq> []"
  by (induction s) (auto split: list.splits)

lemma split_slash_head: "split_slash s = seg # segs \<Longrightarrow> startsWith s seg"
proof (induction s arbitrary: seg segs)
  case Nil
  then show ?case by simp
next
  case (Cons c cs)
  then show ?case by (auto split: if_splits list.splits)
qed

lemma segment_included: "seg \<in> set (split_slash s) \<Longrightarrow> includes_str s seg"
proof (induction s)
  case Nil
  then show ?case by simp
next
  case (Cons c cs)
  show ?case
  proof (cases "c = CHR ''/''")
    case True
    with Cons show ?thesis by auto
  next
    case False
    obtain hd_seg segs where sp: "split_slash cs = hd_seg # segs"
      using split_slash_nonempty [of cs] by (cases "split_slash cs") auto
    with False have whole: "split_slash (c # cs) = (c # hd_seg) # segs" by simp
    from Cons.prems whole consider "seg = c # hd_seg" | "seg \<in> set segs" by auto
    then show ?thesis
    proof cases
      case 1
      from split_slash_head [OF whole] 1 show ?thesis by simp
    next
      case 2
      with sp have "seg \<in> set (split_slash cs)" by simp
      with Cons.IH show ?thesis by simp
    qed
  qed
qed

lemma traversal_included: "hasTraversalSegment n \<Longrightarrow> includes_str n ''..''"
  unfolding hasTraversalSegment_def by (rule segment_included)

lemma validateEntries_None:
  "validateEntries io entries = None \<longleftrightarrow>
     (\<forall>n\<in>set entries. \<not> includes_str n ''..'' \<and> \<not> pathIsAbsolute io n \<and> length (split_slash n) \<le> 20)"
  by (induction entries) auto

lemma validateEntries_Some:
  "validateEntries io entries = Some e \<Longrightarrow>
     \<exists>n\<in>set entries. e = unsafePathError n \<or> e = tooDeepError n"
  by (induction entries) (auto split: if_splits)

lemma extract_try_invalid:
  assumes "zipEntries io = Inr entries"
    and "length entries > upload_maxFiles \<or> validateEntries io entries \<noteq> None"
  shows "\<exists>e. extract_try io zp p runId = (Inl e, zp) \<and> UnsafeArchive entries e"
proof (cases "length entries > upload_maxFiles")
  case True
  with assms(1) show ?thesis by (simp add: extract_try_def UnsafeArchive_def)
next
  case False
  with assms(2) obtain e where e: "validateEntries io entries = Some e" by auto
  from validateEntries_Some [OF e] have "UnsafeArchive entries e"
    by (auto simp: UnsafeArchive_def list_ex_iff)
  with assms(1) False e show ?thesis by (simp add: extract_try_def)
qed

text \<open>
  C1. An archive is rejected with an \<open>UnsafeArchive\<close> error when it has more entries
  than \<^verbatim>\<open>config.upload.maxFiles\<close>, or an entry whose path is absolute, has a \<^verbatim>\<open>..\<close>
  segment, or is nested deeper than 20 segments. Nothing of it is extracted: the only
  file-system call is the removal in the \<^verbatim>\<open>catch\<close> block, no project is recorded and
  no directory gains content.
\<close>

theorem unsafe_archive_rejected:
  assumes "zipEntries io = Inr entries"
    and "length entries > upload_maxFiles \<or>
         (\<exists>n\<in>set entries. pathIsAbsolute io n \<or> hasTraversalSegment n
                               \<or> length (split_slash n) > 20)"
  shows "\<exists>e. fst (extractZip io zp runId) = Inl e \<and> UnsafeArchive entries e \<and>
             calls (snd (extractZip io zp runId)) = calls zp @ [Rm (extractPathOf runId)] \<and>
             extractedProjects (snd (extractZip io zp runId)) = extractedProjects zp \<and>
             (\<forall>p. dirs (snd (extractZip io zp runId)) p = None
                  \<or> dirs (snd (extractZip io zp runId)) p = dirs zp p)"
proof -
  have "length entries > upload_maxFiles \<or> validateEntries io entries \<noteq> None"
  proof (cases "length entries > upload_maxFiles")
    case True
    then show ?thesis by simp
  next
    case False
    with assms(2) obtain n where n: "n \<in> set entries"
      and bad: "pathIsAbsolute io n \<or> hasTraversalSegment n \<or> length (split_slash n) > 20"
      by blast
    from bad traversal_included [of n]
    have "includes_str n ''..'' \<or> pathIsAbsolute io n \<or> \<not> length (split_slash n) \<le> 20"
      by auto
    with n have "validateEntries io entries \<noteq> None"
      unfolding validateEntries_None by blast
    then show ?thesis by simp
  qed
  from extract_try_invalid [OF assms(1) this]
  obtain e where e: "extract_try io zp (extractPathOf runId) runId = (Inl e, zp)"
    and unsafe: "UnsafeArchive entries e" by blast
  from e have "extractZip io zp runId = (Inl e, snd (rm io (extractPathOf runId) zp))"
    by (simp add: extractZip_def)
  with unsafe show ?thesis
    by (auto simp: rm_def split: option.splits)
qed


theorem unsafe_archive_rejected_witness:
  "hasTraversalSegment ''../evil'' \<and>
   (\<exists>e. fst (extractZip
        \<lparr>pathIsAbsolute = isAbsolute_posix, jsonParse = (\<lambda>text. Inl SyntaxError),
         zipEntries = Inr [''index.html'', ''../evil''], mkdirError = None,
         extractOutcome = ([], None), rmError = None\<rparr> emptyProcessor ''r1'') = Inl e \<and>
      UnsafeArchive [''index.html'', ''../evil''] e \<and>
      calls (snd (extractZip
        \<lparr>pathIsAbsolute = isAbsolute_posix, jsonParse = (\<lambda>text. Inl SyntaxError),
         zipEntries = Inr [''index.html'', ''../evil''], mkdirError = None,
         extractOutcome = ([], None), rmError = None\<rparr> emptyProcessor ''r1'')) =
        [Rm ''temp/extracted-r1''])"
proof -
  let ?io = "\<lparr>pathIsAbsolute = isAbsolute_posix, jsonParse = (\<lambda>text. Inl SyntaxError),
         zipEntries = Inr [''index.html'', ''../evil''], mkdirError = None,
         extractOutcome = ([], None), rmError = None\<rparr>"
  have seg: "hasTraversalSegment ''../evil''"
    by (simp add: hasTraversalSegment_def)
  have entries: "zipEntries ?io = Inr [''index.html'', ''../evil'']" by simp
  have bad: "length [''index.html'', ''../evil''] > upload_maxFiles \<or>
      (\<exists>n\<in>set [''index.html'', ''../evil'']. pathIsAbsolute ?io n \<or> hasTraversalSegment n
                               \<or> length (split_slash n) > 20)"
    using seg by simp
  from unsafe_archive_rejected [OF entries bad, of emptyProcessor "''r1''"] seg
  show ?thesis
    by (auto simp: emptyProcessor_def extractPathOf_def upload_tempDir_def)
qed

lemma calls_rm [simp]: "calls (snd (rm io p zp)) = calls zp @ [Rm p]"
  by (simp add: rm_def split: option.splits)



lemma validateEntries_rmError [simp]:
  "validateEntries (io\<lparr>rmError := r\<rparr>) entries = validateEntries io entries"
  by (induction entries) auto

lemma mkdir_rmError [simp]: "mkdir (io\<lparr>rmError := r\<rparr>) p zp = mkdir io p zp"
  by (simp add: mkdir_def)

lemma extractAllTo_rmError [simp]:
  "extractAllTo (io\<lparr>rmError := r\<rparr>) p zp = extractAllTo io p zp"
  by (simp add: extractAllTo_def)

lemma extract_try_rmError [simp]:
  "extract_try (io\<lparr>rmError := r\<rparr>) zp p runId = extract_try io zp p runId"
  by (simp add: extract_try_def split: sum.splits option.splits prod.splits)










subsection \<open>Classification\<close>

lemma destructure_defined: "destructure m k = Inr v \<Longrightarrow> v \<noteq> JUndefined"
  by (cases m) (auto simp: destructure_def split: if_splits)

lemma getProp_total: "v \<noteq> JNull \<Longrightarrow> v \<noteq> JUndefined \<Longrightarrow> \<exists>x. getProp v k = Inr x"
  by (cases v) simp_all

lemma or_prop_total:
  "v \<noteq> JNull \<Longrightarrow> v \<noteq> JUndefined \<Longrightarrow> rest = Inr y \<Longrightarrow> \<exists>z. or_prop v k rest = Inr z"
  using getProp_total [of v k] by (auto simp: or_prop_def)

lemma buildOrNull_total: "v \<noteq> JNull \<Longrightarrow> v \<noteq> JUndefined \<Longrightarrow> \<exists>z. buildOrNull v = Inr z"
  using getProp_total [of v "''build''"] by (auto simp: buildOrNull_def)

lemma analyzeNodeProject_types:
  "analyzeNodeProject files m = Inr info \<Longrightarrow>
   objProp info ''type'' \<in> {JStr ''react'', JStr ''vue'', JStr ''angular'', JStr ''node''}"
  unfolding analyzeNodeProject_def e_bind_Inr
  by (auto simp: nodeInfo_type e_bind_Inr split: if_splits)

lemma analyzeNodeProject_react:
  assumes "destructure m ''scripts'' = Inr scripts" and "scripts \<noteq> JNull"
    and "destructure m ''dependencies'' = Inr deps"
    and "destructure m ''devDependencies'' = Inr dev"
    and "or_prop deps ''react'' (getProp dev ''react'') = Inr r" and "truthy r"
  shows "\<exists>info. analyzeNodeProject files m = Inr info \<and> objProp info ''type'' = JStr ''react''"
proof -
  from assms(1) have def: "scripts \<noteq> JUndefined" by (rule destructure_defined)
  from buildOrNull_total [OF assms(2) def] obtain b where b: "buildOrNull scripts = Inr b" by blast
  from or_prop_total [OF assms(2) def refl] obtain d
    where d: "or_prop scripts ''dev'' (Inr (JStr ''npm start'')) = Inr d" by blast
  from or_prop_total [OF assms(2) def d] obtain st
    where st: "or_prop scripts ''start'' (or_prop scripts ''dev'' (Inr (JStr ''npm start''))) = Inr st"
    by blast
  show ?thesis
    using assms b st by (simp add: analyzeNodeProject_def nodeInfo_type)
qed

lemma analyzeNodeProject_vue:
  assumes "destructure m ''scripts'' = Inr scripts" and "scripts \<noteq> JNull"
    and "destructure m ''dependencies'' = Inr deps"
    and "destructure m ''devDependencies'' = Inr dev"
    and "or_prop deps ''react'' (getProp dev ''react'') = Inr r" and "\<not> truthy r"
    and "or_prop deps ''vue'' (getProp dev ''vue'') = Inr v" and "truthy v"
  shows "\<exists>info. analyzeNodeProject files m = Inr info \<and> objProp info ''type'' = JStr ''vue''"
proof -
  from assms(1) have def: "scripts \<noteq> JUndefined" by (rule destructure_defined)
  from buildOrNull_total [OF assms(2) def] obtain b where b: "buildOrNull scripts = Inr b" by blast
  from or_prop_total [OF assms(2) def refl] obtain d
    where d: "or_prop scripts ''dev'' (Inr (JStr ''npm run serve'')) = Inr d" by blast
  from or_prop_total [OF assms(2) def d] obtain st
    where st: "or_prop scripts ''serve'' (or_prop scripts ''dev'' (Inr (JStr ''npm run serve''))) = Inr st"
    by blast
  show ?thesis
    using assms b st by (simp add: analyzeNodeProject_def nodeInfo_type)
qed

lemma startsWith_append: "startsWith (p @ s) p"
  by (induction p) simp_all

lemma startsWith_includes: "startsWith s sub \<Longrightarrow> includes_str s sub"
  by (cases s) simp_all

lemma includes_str_append: "includes_str (a @ b @ c) b"
  by (induction a) (simp_all add: startsWith_includes startsWith_append)

lemma relativePath_slash: "p \<noteq> [] \<Longrightarrow> includes_str (relativePath p name) ''/''"
  using includes_str_append [of p "''/''" name] by (simp add: relativePath_def)

lemma relativePath_nonempty: "p \<noteq> [] \<Longrightarrow> relativePath p name \<noteq> []"
  by (simp add: relativePath_def)

lemma listEntry_nested:
  "f \<in> set (listEntry p x) \<Longrightarrow> p \<noteq> [] \<Longrightarrow> includes_str f ''/''"
proof (induction p x arbitrary: f rule: listEntry.induct)
  case (1 prefix name content)
  then show ?case by (simp add: relativePath_slash)
next
  case (2 prefix name entries)
  then show ?case
    by (auto simp: relativePath_nonempty split: if_splits)
qed

text \<open>
  What the listing and its root are. A file at the top of the tree is a root file, and
  where no directory at the top has the empty name nothing else is; a directory
  named \<^verbatim>\<open>node_modules\<close>, \<^verbatim>\<open>.git\<close>, \<^verbatim>\<open>__pycache__\<close> or \<^verbatim>\<open>.pytest_cache\<close> adds nothing to
  the listing, any other directory adds the listing of its entries.
\<close>

lemma root_file_listed:
  "File n c \<in> set tree \<Longrightarrow> \<not> includes_str n ''/'' \<Longrightarrow>
   n \<in> set (rootFilesOf (getFileList tree []))"
  by (force simp: rootFilesOf_def getFileList_def relativePath_def)

lemma root_file_is_top_level:
  assumes "n \<in> set (rootFilesOf (getFileList tree []))"
    and "\<forall>d sub. Dir d sub \<in> set tree \<longrightarrow> d \<noteq> []"
  shows "\<exists>c. File n c \<in> set tree"
proof -
  from assms(1) obtain x where x: "x \<in> set tree" and n: "n \<in> set (listEntry [] x)"
    and flat: "\<not> includes_str n ''/''"
    by (auto simp: rootFilesOf_def getFileList_def)
  show ?thesis
  proof (cases x)
    case (File name content)
    with n x show ?thesis by (auto simp: relativePath_def)
  next
    case (Dir d sub)
    with x assms(2) have "d \<noteq> []" by blast
    with n Dir flat listEntry_nested [of n d] show ?thesis
      by (auto simp: relativePath_def split: if_splits)
  qed
qed

lemma skipped_directory_not_listed:
  "d \<in> {''node_modules'', ''.git'', ''__pycache__'', ''.pytest_cache''} \<Longrightarrow>
   listEntry p (Dir d sub) = []"
  by (auto simp: skippedDirs_def)

lemma other_directory_listed:
  "d \<notin> {''node_modules'', ''.git'', ''__pycache__'', ''.pytest_cache''} \<Longrightarrow>
   listEntry p (Dir d sub) = concat (map (listEntry (relativePath p d)) sub)"
  by (auto simp: skippedDirs_def)

text \<open>
  The order of the tests of \<^verbatim>\<open>analyzeProject\<close>. With \<open>files\<close> the listing of the tree
  and \<open>rootFiles\<close> its entries without a slash, the first match wins: a root
  \<^verbatim>\<open>package.json\<close> gives the result of the Node analysis of the manifest, whose type
  is one of react, vue, angular and node whenever it returns; else a root
  \<^verbatim>\<open>requirements.txt\<close> or \<^verbatim>\<open>Pipfile\<close> gives python; else a root \<^verbatim>\<open>Dockerfile\<close> gives
  docker; else a listed \<^verbatim>\<open>.html\<close> file gives static; else unknown. In the Node
  analysis, with \<^verbatim>\<open>scripts\<close> not null, a truthy
  \<^verbatim>\<open>dependencies.react || devDependencies.react\<close> gives react, and a falsy one with a
  truthy \<^verbatim>\<open>dependencies.vue || devDependencies.vue\<close> gives vue.
\<close>

lemma classification_precedence:
  assumes "files = getFileList tree []" and "rootFiles = rootFilesOf files"
  shows
  "(''package.json'' \<in> set rootFiles \<longrightarrow>
      analyzeProject parse tree = analyzeNodeProject files (readPackageJson parse tree)) \<and>
   (\<forall>m info. analyzeNodeProject files m = Inr info \<longrightarrow>
      objProp info ''type'' \<in> {JStr ''react'', JStr ''vue'', JStr ''angular'', JStr ''node''}) \<and>
   (''package.json'' \<notin> set rootFiles \<and>
      (''requirements.txt'' \<in> set rootFiles \<or> ''Pipfile'' \<in> set rootFiles) \<longrightarrow>
      analyzeProject parse tree = Inr (analyzePythonProject files) \<and>
      objProp (analyzePythonProject files) ''type'' = JStr ''python'') \<and>
   (''package.json'' \<notin> set rootFiles \<and> ''requirements.txt'' \<notin> set rootFiles \<and>
      ''Pipfile'' \<notin> set rootFiles \<and> ''Dockerfile'' \<in> set rootFiles \<longrightarrow>
      (\<exists>info. analyzeProject parse tree = Inr info \<and> objProp info ''type'' = JStr ''docker'')) \<and>
   (''package.json'' \<notin> set rootFiles \<and> ''requirements.txt'' \<notin> set rootFiles \<and>
      ''Pipfile'' \<notin> set rootFiles \<and> ''Dockerfile'' \<notin> set rootFiles \<and>
      list_ex (\<lambda>f. endsWith f ''.html'') files \<longrightarrow>
      analyzeProject parse tree = Inr (analyzeStaticProject files) \<and>
      objProp (analyzeStaticProject files) ''type'' = JStr ''static'') \<and>
   (''package.json'' \<notin> set rootFiles \<and> ''requirements.txt'' \<notin> set rootFiles \<and>
      ''Pipfile'' \<notin> set rootFiles \<and> ''Dockerfile'' \<notin> set rootFiles \<and>
      \<not> list_ex (\<lambda>f. endsWith f ''.html'') files \<longrightarrow>
      (\<exists>info. analyzeProject parse tree = Inr info \<and> objProp info ''type'' = JStr ''unknown'')) \<and>
   (\<forall>m scripts deps dev r.
      destructure m ''scripts'' = Inr scripts \<and> scripts \<noteq> JNull \<and>
      destructure m ''dependencies'' = Inr deps \<and> destructure m ''devDependencies'' = Inr dev \<and>
      or_prop deps ''react'' (getProp dev ''react'') = Inr r \<and> truthy r \<longrightarrow>
      (\<exists>info. analyzeNodeProject files m = Inr info \<and> objProp info ''type'' = JStr ''react'')) \<and>
   (\<forall>m scripts deps dev r v.
      destructure m ''scripts'' = Inr scripts \<and> scripts \<noteq> JNull \<and>
      destructure m ''dependencies'' = Inr deps \<and> destructure m ''devDependencies'' = Inr dev \<and>
      or_prop deps ''react'' (getProp dev ''react'') = Inr r \<and> \<not> truthy r \<and>
      or_prop deps ''vue'' (getProp dev ''vue'') = Inr v \<and> truthy v \<longrightarrow>
      (\<exists>info. analyzeNodeProject files m = Inr info \<and> objProp info ''type'' = JStr ''vue''))"
proof (intro conjI)
  show "''package.json'' \<in> set rootFiles \<longrightarrow>
      analyzeProject parse tree = analyzeNodeProject files (readPackageJson parse tree)"
    using assms by (simp add: analyzeProject_def Let_def)
  show "\<forall>m info. analyzeNodeProject files m = Inr info \<longrightarrow>
      objProp info ''type'' \<in> {JStr ''react'', JStr ''vue'', JStr ''angular'', JStr ''node''}"
    using analyzeNodeProject_types by blast
  show "''package.json'' \<notin> set rootFiles \<and>
      (''requirements.txt'' \<in> set rootFiles \<or> ''Pipfile'' \<in> set rootFiles) \<longrightarrow>
      analyzeProject parse tree = Inr (analyzePythonProject files) \<and>
      objProp (analyzePythonProject files) ''type'' = JStr ''python''"
    using assms by (simp add: analyzeProject_def Let_def analyzePythonProject_def objProp_def)
  show "''package.json'' \<notin> set rootFiles \<and> ''requirements.txt'' \<notin> set rootFiles \<and>
      ''Pipfile'' \<notin> set rootFiles \<and> ''Dockerfile'' \<in> set rootFiles \<longrightarrow>
      (\<exists>info. analyzeProject parse tree = Inr info \<and> objProp info ''type'' = JStr ''docker'')"
    using assms by (simp add: analyzeProject_def Let_def objProp_def)
  show "''package.json'' \<notin> set rootFiles \<and> ''requirements.txt'' \<notin> set rootFiles \<and>
      ''Pipfile'' \<notin> set rootFiles \<and> ''Dockerfile'' \<notin> set rootFiles \<and>
      list_ex (\<lambda>f. endsWith f ''.html'') files \<longrightarrow>
      analyzeProject parse tree = Inr (analyzeStaticProject files) \<and>
      objProp (analyzeStaticProject files) ''type'' = JStr ''static''"
    using assms by (simp add: analyzeProject_def Let_def analyzeStaticProject_def objProp_def)
  show "''package.json'' \<notin> set rootFiles \<and> ''requirements.txt'' \<notin> set rootFiles \<and>
      ''Pipfile'' \<notin> set rootFiles \<and> ''Dockerfile'' \<notin> set rootFiles \<and>
      \<not> list_ex (\<lambda>f. endsWith f ''.html'') files \<longrightarrow>
      (\<exists>info. analyzeProject parse tree = Inr info \<and> objProp info ''type'' = JStr ''unknown'')"
    using assms by (simp add: analyzeProject_def Let_def objProp_def)
  show "\<forall>m scripts deps dev r.
      destructure m ''scripts'' = Inr scripts \<and> scripts \<noteq> JNull \<and>
      destructure m ''dependencies'' = Inr deps \<and> destructure m ''devDependencies'' = Inr dev \<and>
      or_prop deps ''react'' (getProp dev ''react'') = Inr r \<and> truthy r \<longrightarrow>
      (\<exists>info. analyzeNodeProject files m = Inr info \<and> objProp info ''type'' = JStr ''react'')"
    using analyzeNodeProject_react by blast
  show "\<forall>m scripts deps dev r v.
      destructure m ''scripts'' = Inr scripts \<and> scripts \<noteq> JNull \<and>
      destructure m ''dependencies'' = Inr deps \<and> destructure m ''devDependencies'' = Inr dev \<and>
      or_prop deps ''react'' (getProp dev ''react'') = Inr r \<and> \<not> truthy r \<and>
      or_prop deps ''vue'' (getProp dev ''vue'') = Inr v \<and> truthy v \<longrightarrow>
      (\<exists>info. analyzeNodeProject files m = Inr info \<and> objProp info ''type'' = JStr ''vue'')"
    using analyzeNodeProject_vue by blast
qed


lemma classification_precedence_example:
  "''package.json'' \<in> set (rootFilesOf (getFileList
      [File ''package.json'' (Some (manifestText ''react'' ''^18.2.0'')),
       File ''Dockerfile'' (Some ''FROM node'')] [])) \<and>
   ''Dockerfile'' \<in> set (rootFilesOf (getFileList
      [File ''package.json'' (Some (manifestText ''react'' ''^18.2.0'')),
       File ''Dockerfile'' (Some ''FROM node'')] [])) \<and>
   truthy (JStr ''^18.2.0'') \<and>
   (\<exists>info. analyzeProject (parseManifest ''react'' ''^18.2.0'')
      [File ''package.json'' (Some (manifestText ''react'' ''^18.2.0'')),
       File ''Dockerfile'' (Some ''FROM node'')]
        = Inr info \<and> objProp info ''type'' = JStr ''react'') \<and>
   (\<exists>info. analyzeProject (parseManifest ''vue'' ''^3.4.0'')
      [File ''package.json'' (Some (manifestText ''vue'' ''^3.4.0''))]
        = Inr info \<and> objProp info ''type'' = JStr ''vue'') \<and>
   list_ex (\<lambda>f. endsWith f ''.html'') (getFileList [Dir ''site'' [File ''about.html'' (Some ''<html>'')]] []) \<and>
   analyzeProject (parseManifest ''react'' [])
      [Dir ''site'' [File ''about.html'' (Some ''<html>'')]]
     = Inr (analyzeStaticProject [''site/about.html''])"
proof -
  let ?tree = "[File ''package.json'' (Some (manifestText ''react'' ''^18.2.0'')),
                File ''Dockerfile'' (Some ''FROM node'')]"
  let ?m = "manifestValue ''react'' ''^18.2.0''"
  note precedence =
    classification_precedence [OF refl refl, of ?tree "parseManifest ''react'' ''^18.2.0''"]
  have root: "''package.json'' \<in> set (rootFilesOf (getFileList ?tree []))"
      "''Dockerfile'' \<in> set (rootFilesOf (getFileList ?tree []))"
    by (simp_all add: rootFilesOf_def getFileList_def relativePath_def)
  have manifest: "readPackageJson (parseManifest ''react'' ''^18.2.0'') ?tree = ?m"
    by (simp add: readPackageJson_def parseManifest_def)
  have fields: "destructure ?m ''scripts'' = Inr (JObj []) \<and> JObj [] \<noteq> JNull \<and>
      destructure ?m ''dependencies'' = Inr (JObj [(''react'', JStr ''^18.2.0'')]) \<and>
      destructure ?m ''devDependencies'' = Inr (JObj []) \<and>
      or_prop (JObj [(''react'', JStr ''^18.2.0'')]) ''react'' (getProp (JObj []) ''react'')
        = Inr (JStr ''^18.2.0'') \<and> truthy (JStr ''^18.2.0'')"
    by (simp add: manifestValue_def destructure_def or_prop_def objProp_def)
  from precedence root(1) manifest
  have "analyzeProject (parseManifest ''react'' ''^18.2.0'') ?tree =
      analyzeNodeProject (getFileList ?tree []) ?m"
    by metis
  moreover from precedence fields
  have "\<exists>info. analyzeNodeProject (getFileList ?tree []) ?m = Inr info \<and>
      objProp info ''type'' = JStr ''react''"
    by blast
  ultimately have react: "\<exists>info. analyzeProject (parseManifest ''react'' ''^18.2.0'') ?tree = Inr info \<and>
      objProp info ''type'' = JStr ''react''"
    by simp

  let ?vtree = "[File ''package.json'' (Some (manifestText ''vue'' ''^3.4.0''))]"
  let ?vm = "manifestValue ''vue'' ''^3.4.0''"
  note vprecedence =
    classification_precedence [OF refl refl, of ?vtree "parseManifest ''vue'' ''^3.4.0''"]
  have vroot: "''package.json'' \<in> set (rootFilesOf (getFileList ?vtree []))"
    by (simp add: rootFilesOf_def getFileList_def relativePath_def)
  have vmanifest: "readPackageJson (parseManifest ''vue'' ''^3.4.0'') ?vtree = ?vm"
    by (simp add: readPackageJson_def parseManifest_def)
  have vfields: "destructure ?vm ''scripts'' = Inr (JObj []) \<and> JObj [] \<noteq> JNull \<and>
      destructure ?vm ''dependencies'' = Inr (JObj [(''vue'', JStr ''^3.4.0'')]) \<and>
      destructure ?vm ''devDependencies'' = Inr (JObj []) \<and>
      or_prop (JObj [(''vue'', JStr ''^3.4.0'')]) ''react'' (getProp (JObj []) ''react'')
        = Inr JUndefined \<and> \<not> truthy JUndefined \<and>
      or_prop (JObj [(''vue'', JStr ''^3.4.0'')]) ''vue'' (getProp (JObj []) ''vue'')
        = Inr (JStr ''^3.4.0'') \<and> truthy (JStr ''^3.4.0'')"
    by (simp add: manifestValue_def destructure_def or_prop_def objProp_def)
  from vprecedence vroot vmanifest
  have "analyzeProject (parseManifest ''vue'' ''^3.4.0'') ?vtree =
      analyzeNodeProject (getFileList ?vtree []) ?vm"
    by metis
  moreover from vprecedence vfields
  have "\<exists>info. analyzeNodeProject (getFileList ?vtree []) ?vm = Inr info \<and>
      objProp info ''type'' = JStr ''vue''"
    by blast
  ultimately have vue: "\<exists>info. analyzeProject (parseManifest ''vue'' ''^3.4.0'') ?vtree = Inr info \<and>
      objProp info ''type'' = JStr ''vue''"
    by simp

  let ?stree = "[Dir ''site'' [File ''about.html'' (Some ''<html>'')]]"
  note sprecedence =
    classification_precedence [OF refl refl, of ?stree "parseManifest ''react'' []"]
  have listing: "getFileList ?stree [] = [''site/about.html'']"
    by (simp add: getFileList_def relativePath_def skippedDirs_def)
  have page: "list_ex (\<lambda>f. endsWith f ''.html'') (getFileList ?stree [])"
    by (simp add: listing endsWith_def)
  have none: "''package.json'' \<notin> set (rootFilesOf (getFileList ?stree [])) \<and>
      ''requirements.txt'' \<notin> set (rootFilesOf (getFileList ?stree [])) \<and>
      ''Pipfile'' \<notin> set (rootFilesOf (getFileList ?stree [])) \<and>
      ''Dockerfile'' \<notin> set (rootFilesOf (getFileList ?stree []))"
    by (simp add: listing rootFilesOf_def)
  from sprecedence none page
  have "analyzeProject (parseManifest ''react'' []) ?stree =
      Inr (analyzeStaticProject (getFileList ?stree []))"
    by blast
  then have static: "analyzeProject (parseManifest ''react'' []) ?stree =
      Inr (analyzeStaticProject [''site/about.html''])"
    by (simp add: listing)
  from root react vue page static show ?thesis by simp
qed

text \<open>
  So a manifest one level down does not count: beside a root \<^verbatim>\<open>Dockerfile\<close> the tree
  is a docker project.
\<close>

lemma nested_manifest_example:
  "analyzeProject (parseManifest ''react'' ''^18.2.0'')
     [Dir ''app'' [File ''package.json'' (Some (manifestText ''react'' ''^18.2.0''))],
      File ''Dockerfile'' (Some ''FROM node'')] =
   Inr [(''type'', JStr ''docker''),
        (''files'', JArr [JStr ''app/package.json'', JStr ''Dockerfile'']),
        (''buildCommand'', JStr ''docker build .''), (''startCommand'', JStr ''docker run'')]"
  by (simp add: analyzeProject_def getFileList_def rootFilesOf_def relativePath_def
        skippedDirs_def filesValue_def)

text \<open>
  A manifest that \<^verbatim>\<open>JSON.parse\<close> reads as \<^verbatim>\<open>null\<close> makes the destructuring of the Node
  analysis throw, beside a \<^verbatim>\<open>Dockerfile\<close> too.
\<close>

lemma null_manifest_example:
  "analyzeProject parseNull
     [File ''package.json'' (Some ''null''), File ''Dockerfile'' (Some ''FROM node'')] =
   Inl TypeError"
  by (simp add: analyzeProject_def getFileList_def rootFilesOf_def relativePath_def
        readPackageJson_def parseNull_def analyzeNodeProject_def destructure_def)

text \<open>
  C3 fails on the code. The tree holds one file, the \<^verbatim>\<open>package.json\<close> with the text
  \<^verbatim>\<open>{"dependencies":{"react":""}}\<close>: \<^verbatim>\<open>dependencies.react\<close> is present, with the empty
  version range. The claim has the type react. The test
  \<^verbatim>\<open>dependencies.react || devDependencies.react\<close> asks whether the value is truthy, not
  whether the property is there, and the empty string is falsy, so all framework tests
  fail and the result is the default Node.js description, whose own
  \<^verbatim>\<open>dependencies\<close> list names react.
\<close>

theorem empty_react_version_classified_as_node:
  "analyzeProject (parseManifest ''react'' [])
      [File ''package.json'' (Some (manifestText ''react'' []))] =
     Inr [(''type'', JStr ''node''), (''framework'', JStr ''Node.js''),
          (''files'', JArr [JStr ''package.json'']),
          (''buildCommand'', JNull), (''startCommand'', JStr ''node index.js''),
          (''dependencies'', JArr [JStr ''react''])]"
  by (simp add: analyzeProject_def getFileList_def rootFilesOf_def relativePath_def
        readPackageJson_def parseManifest_def manifestValue_def analyzeNodeProject_def
        destructure_def or_prop_def objProp_def buildScriptOrNull_def nodeInfo_def
        filesValue_def)

subsection \<open>Run store and preview\<close>

text \<open>
  C6. \<^verbatim>\<open>RunStore.update\<close> on an id the store does not hold returns \<^verbatim>\<open>null\<close> and leaves
  the store as it is; the function has no path that throws. On an id the store holds
  it stores and returns the run in which every given field overrides the stored one,
  every other field is kept, and \<^verbatim>\<open>updatedAt\<close> is the time stamp.
\<close>

theorem RunStore_update_merges:
  "(runs i = None \<longrightarrow> RunStore_update runs i updates now = (runs, None)) \<and>
   (\<forall>existing. runs i = Some existing \<longrightarrow>
      (\<exists>updated. RunStore_update runs i updates now = (runs(i \<mapsto> updated), Some updated) \<and>
         updated ''updatedAt'' = Some (JStr now) \<and>
         (\<forall>k. k \<noteq> ''updatedAt'' \<longrightarrow>
            updated k = (case updates k of Some v \<Rightarrow> Some v | None \<Rightarrow> existing k))))"
  by (auto simp: RunStore_update_def Let_def map_add_def)

theorem RunStore_update_merges_witness:
  "RunStore_update [''r1'' \<mapsto> [''id'' \<mapsto> JStr ''r1'']] ''r2'' [''status'' \<mapsto> JStr ''ready''] ''t1''
     = ([''r1'' \<mapsto> [''id'' \<mapsto> JStr ''r1'']], None) \<and>
   (\<exists>updated.
      RunStore_update [''r1'' \<mapsto> [''id'' \<mapsto> JStr ''r1'', ''status'' \<mapsto> JStr ''queued'']] ''r1''
        [''status'' \<mapsto> JStr ''ready''] ''t1''
      = ([''r1'' \<mapsto> updated], Some updated) \<and>
      updated ''updatedAt'' = Some (JStr ''t1'') \<and> updated ''status'' = Some (JStr ''ready'') \<and>
      updated ''id'' = Some (JStr ''r1''))"
proof -
  let ?absent = "[''r1'' \<mapsto> [''id'' \<mapsto> JStr ''r1'']]"
  let ?existing = "[''id'' \<mapsto> JStr ''r1'', ''status'' \<mapsto> JStr ''queued'']"
  have none: "?absent ''r2'' = None" by simp
  have some: "[''r1'' \<mapsto> ?existing] ''r1'' = Some ?existing" by simp
  from RunStore_update_merges [of ?absent "''r2''" "[''status'' \<mapsto> JStr ''ready'']" "''t1''"] none
  have first: "RunStore_update ?absent ''r2'' [''status'' \<mapsto> JStr ''ready''] ''t1'' = (?absent, None)"
    by blast
  from RunStore_update_merges [of "[''r1'' \<mapsto> ?existing]" "''r1''" "[''status'' \<mapsto> JStr ''ready'']" "''t1''"]
    some
  obtain updated where upd:
    "RunStore_update [''r1'' \<mapsto> ?existing] ''r1'' [''status'' \<mapsto> JStr ''ready''] ''t1''
       = ([''r1'' \<mapsto> ?existing](''r1'' \<mapsto> updated), Some updated)"
    "updated ''updatedAt'' = Some (JStr ''t1'')"
    "\<forall>k. k \<noteq> ''updatedAt'' \<longrightarrow>
        updated k = (case [''status'' \<mapsto> JStr ''ready''] k of Some v \<Rightarrow> Some v | None \<Rightarrow> ?existing k)"
    by blast
  from upd(3) have "updated ''status'' = Some (JStr ''ready'')" "updated ''id'' = Some (JStr ''r1'')"
    by simp_all
  with first upd(1,2) show ?thesis by simp
qed

lemma csp_differ: "csp_strict \<noteq> csp_relaxed"
  by (simp add: csp_strict_def csp_relaxed_def quoted_def)

text \<open>
  The handler by itself, on a store that holds the run. \<^verbatim>\<open>getCSPForProject\<close> gives the
  relaxed profile for the project types react, vue and angular and the strict profile
  for every other value, static and a missing type among them; the two profiles differ.
  Whenever the preview of a ready run is served (status 200), its
  \<^verbatim>\<open>Content-Security-Policy\<close> header is the profile of the run's project type; the only
  other answer for a ready run is the error response with status 500.
\<close>

lemma preview_csp_by_project_type:
  "getCSPForProject projectType =
     (if projectType \<in> {JStr ''react'', JStr ''vue'', JStr ''angular''} then csp_relaxed
      else csp_strict) \<and>
   csp_strict \<noteq> csp_relaxed \<and>
   (RunStore_get runs runId = Some run \<and> runProp run ''status'' = JStr ''ready'' \<longrightarrow>
      (res_status (preview runs wm objs runId path) = 200 \<and>
       res_headers (preview runs wm objs runId path) ''Content-Security-Policy'' =
         Some (if runProp run ''projectType'' \<in> {JStr ''react'', JStr ''vue'', JStr ''angular''}
               then csp_relaxed else csp_strict)) \<or>
      (res_status (preview runs wm objs runId path) = 500 \<and>
       res_body (preview runs wm objs runId path) = PreviewError))"
  by (auto simp: getCSPForProject_def csp_differ preview_def previewHeaders_def
           split: sum.splits option.splits)


lemma preview_csp_by_project_type_example:
  "RunStore_get [''r1'' \<mapsto> [''id'' \<mapsto> JStr ''r1'', ''status'' \<mapsto> JStr ''ready'',
                                ''projectType'' \<mapsto> JStr ''react'']] ''r1''
     = Some [''id'' \<mapsto> JStr ''r1'', ''status'' \<mapsto> JStr ''ready'', ''projectType'' \<mapsto> JStr ''react''] \<and>
   res_status (preview [''r1'' \<mapsto> [''id'' \<mapsto> JStr ''r1'', ''status'' \<mapsto> JStr ''ready'',
                                ''projectType'' \<mapsto> JStr ''react'']] WorkerManager_new [] ''r1'' ''index.html'')
     = 200 \<and>
   res_headers (preview [''r1'' \<mapsto> [''id'' \<mapsto> JStr ''r1'', ''status'' \<mapsto> JStr ''ready'',
                                ''projectType'' \<mapsto> JStr ''react'']] WorkerManager_new [] ''r1'' ''index.html'')
     ''Content-Security-Policy'' = Some csp_relaxed"
proof -
  let ?run = "[''id'' \<mapsto> JStr ''r1'', ''status'' \<mapsto> JStr ''ready'', ''projectType'' \<mapsto> JStr ''react'']"
  let ?res = "preview [''r1'' \<mapsto> ?run] WorkerManager_new [] ''r1'' ''index.html''"
  have stored: "RunStore_get [''r1'' \<mapsto> ?run] ''r1'' = Some ?run"
    by (simp add: RunStore_get_def)
  have ready: "runProp ?run ''status'' = JStr ''ready''" and type: "runProp ?run ''projectType'' = JStr ''react''"
    by (simp_all add: runProp_def)
  have served: "res_status ?res = 200"
    by (simp add: preview_def RunStore_get_def runProp_def generateFallbackContent_def
          toUpperCase_def orElse_def)
  from preview_csp_by_project_type [of "JStr ''react''" "[''r1'' \<mapsto> ?run]" "''r1''" ?run
      WorkerManager_new "[]" "''index.html''"] stored ready served
  have "res_headers ?res ''Content-Security-Policy'' =
      Some (if runProp ?run ''projectType'' \<in> {JStr ''react'', JStr ''vue'', JStr ''angular''}
            then csp_relaxed else csp_strict)"
    by auto
  with type stored served show ?thesis by simp
qed

lemma toUpperCase_string: "\<exists>badge. toUpperCase (JStr s) = Inr badge"
  by (simp add: toUpperCase_def)

lemma generateFallbackContent_total:
  assumes "runProp run ''projectType'' = JUndefined \<or> (\<exists>t. runProp run ''projectType'' = JStr t)"
  shows "\<exists>content. generateFallbackContent path run = Inr content \<and>
     (path = [] \<or> path = ''index.html'' \<longrightarrow>
        (\<exists>t badge. content = FallbackPage t badge (runProp run ''id''))) \<and>
     (path \<noteq> [] \<and> path \<noteq> ''index.html'' \<and> endsWith path ''.js'' \<longrightarrow>
        content = FallbackScript path (runProp run ''id'')) \<and>
     (path \<noteq> [] \<and> path \<noteq> ''index.html'' \<and> \<not> endsWith path ''.js'' \<and> endsWith path ''.css'' \<longrightarrow>
        content = FallbackStyle path) \<and>
     (path \<noteq> [] \<and> path \<noteq> ''index.html'' \<and> \<not> endsWith path ''.js'' \<and> \<not> endsWith path ''.css'' \<longrightarrow>
        content = FallbackText (''Simulated content for '' @ path @ '' in run '') (runProp run ''id''))"
proof -
  from assms have "\<exists>s. orElse (runProp run ''projectType'') (JStr ''UNKNOWN'') = JStr s"
    by (auto simp: orElse_def)
  then obtain s where "orElse (runProp run ''projectType'') (JStr ''UNKNOWN'') = JStr s" ..
  then show ?thesis
    by (auto simp: generateFallbackContent_def toUpperCase_def)
qed

text \<open>
  The handler by itself, on a store that holds the run. For a ready run whose
  \<^verbatim>\<open>workerId\<close> is unset or names no Worker of the manager, and whose project type is
  missing or a string, the handler answers with status 200 and the fallback content:
  the page for the empty path and \<^verbatim>\<open>index.html\<close>, the script stub for \<^verbatim>\<open>.js\<close>, the
  style stub for \<^verbatim>\<open>.css\<close>, the text otherwise. Its headers are the security headers
  with the content type derived from the path, the same headers that any served
  response for this run and path carries, worker-backed or not.
\<close>

lemma preview_fallback_content:
  assumes "RunStore_get runs runId = Some run" and "runProp run ''status'' = JStr ''ready''"
    and "\<not> truthy (runProp run ''workerId'') \<or> WorkerManager_get wm (runProp run ''workerId'') = None"
    and "runProp run ''projectType'' = JUndefined \<or> (\<exists>t. runProp run ''projectType'' = JStr t)"
  shows "\<exists>content. generateFallbackContent path run = Inr content \<and>
     preview runs wm objs runId path =
       \<lparr>res_status = 200, res_headers = previewHeaders run path, res_body = content\<rparr> \<and>
     (path = [] \<or> path = ''index.html'' \<longrightarrow>
        (\<exists>t badge. content = FallbackPage t badge (runProp run ''id''))) \<and>
     (path \<noteq> [] \<and> path \<noteq> ''index.html'' \<and> endsWith path ''.js'' \<longrightarrow>
        content = FallbackScript path (runProp run ''id'')) \<and>
     (path \<noteq> [] \<and> path \<noteq> ''index.html'' \<and> \<not> endsWith path ''.js'' \<and> endsWith path ''.css'' \<longrightarrow>
        content = FallbackStyle path) \<and>
     (path \<noteq> [] \<and> path \<noteq> ''index.html'' \<and> \<not> endsWith path ''.js'' \<and> \<not> endsWith path ''.css'' \<longrightarrow>
        content = FallbackText (''Simulated content for '' @ path @ '' in run '') (runProp run ''id'')) \<and>
     previewHeaders run path ''Content-Type'' = Some (getContentType path) \<and>
     previewHeaders run path ''Content-Security-Policy'' =
       Some (getCSPForProject (runProp run ''projectType'')) \<and>
     (\<forall>wm' objs'. res_status (preview runs wm' objs' runId path) = 200 \<longrightarrow>
        res_headers (preview runs wm' objs' runId path) = previewHeaders run path)"
proof -
  from generateFallbackContent_total [OF assms(4), of path]
  obtain content where content: "generateFallbackContent path run = Inr content"
    and kinds: "(path = [] \<or> path = ''index.html'' \<longrightarrow>
        (\<exists>t badge. content = FallbackPage t badge (runProp run ''id''))) \<and>
     (path \<noteq> [] \<and> path \<noteq> ''index.html'' \<and> endsWith path ''.js'' \<longrightarrow>
        content = FallbackScript path (runProp run ''id'')) \<and>
     (path \<noteq> [] \<and> path \<noteq> ''index.html'' \<and> \<not> endsWith path ''.js'' \<and> endsWith path ''.css'' \<longrightarrow>
        content = FallbackStyle path) \<and>
     (path \<noteq> [] \<and> path \<noteq> ''index.html'' \<and> \<not> endsWith path ''.js'' \<and> \<not> endsWith path ''.css'' \<longrightarrow>
        content = FallbackText (''Simulated content for '' @ path @ '' in run '') (runProp run ''id''))"
    by blast
  from assms(1-3) content
  have served: "preview runs wm objs runId path =
       \<lparr>res_status = 200, res_headers = previewHeaders run path, res_body = content\<rparr>"
    by (auto simp: preview_def)
  have headers: "previewHeaders run path ''Content-Type'' = Some (getContentType path)"
      "previewHeaders run path ''Content-Security-Policy'' =
         Some (getCSPForProject (runProp run ''projectType''))"
    by (simp_all add: previewHeaders_def)
  have same: "\<forall>wm' objs'. res_status (preview runs wm' objs' runId path) = 200 \<longrightarrow>
        res_headers (preview runs wm' objs' runId path) = previewHeaders run path"
    using assms(1,2) by (auto simp: preview_def split: sum.splits option.splits)
  from content served kinds headers same show ?thesis by blast
qed

lemma preview_fallback_content_example:
  "RunStore_get [''r1'' \<mapsto> [''id'' \<mapsto> JStr ''r1'', ''status'' \<mapsto> JStr ''ready'',
       ''projectType'' \<mapsto> JStr ''static'', ''workerId'' \<mapsto> JStr ''worker-r1'']] ''r1''
     = Some [''id'' \<mapsto> JStr ''r1'', ''status'' \<mapsto> JStr ''ready'',
             ''projectType'' \<mapsto> JStr ''static'', ''workerId'' \<mapsto> JStr ''worker-r1''] \<and>
   WorkerManager_get WorkerManager_new (JStr ''worker-r1'') = None \<and>
   res_status (preview [''r1'' \<mapsto> [''id'' \<mapsto> JStr ''r1'', ''status'' \<mapsto> JStr ''ready'',
       ''projectType'' \<mapsto> JStr ''static'', ''workerId'' \<mapsto> JStr ''worker-r1'']]
       WorkerManager_new [] ''r1'' ''js/app.js'') = 200 \<and>
   res_body (preview [''r1'' \<mapsto> [''id'' \<mapsto> JStr ''r1'', ''status'' \<mapsto> JStr ''ready'',
       ''projectType'' \<mapsto> JStr ''static'', ''workerId'' \<mapsto> JStr ''worker-r1'']]
       WorkerManager_new [] ''r1'' ''js/app.js'') = FallbackScript ''js/app.js'' (JStr ''r1'')"
proof -
  let ?run = "[''id'' \<mapsto> JStr ''r1'', ''status'' \<mapsto> JStr ''ready'',
               ''projectType'' \<mapsto> JStr ''static'', ''workerId'' \<mapsto> JStr ''worker-r1'']"
  have stored: "RunStore_get [''r1'' \<mapsto> ?run] ''r1'' = Some ?run"
    by (simp add: RunStore_get_def)
  have ready: "runProp ?run ''status'' = JStr ''ready''"
    by (simp add: runProp_def)
  have unknown: "WorkerManager_get WorkerManager_new (JStr ''worker-r1'') = None"
    by (simp add: WorkerManager_get_def WorkerManager_new_def)
  have worker: "\<not> truthy (runProp ?run ''workerId'') \<or>
      WorkerManager_get WorkerManager_new (runProp ?run ''workerId'') = None"
    using unknown by (simp add: runProp_def)
  have type: "runProp ?run ''projectType'' = JUndefined \<or> (\<exists>t. runProp ?run ''projectType'' = JStr t)"
    by (simp add: runProp_def)
  have path: "''js/app.js'' \<noteq> [] \<and> ''js/app.js'' \<noteq> ''index.html'' \<and> endsWith ''js/app.js'' ''.js''"
    by (simp add: endsWith_def)
  have ident: "runProp ?run ''id'' = JStr ''r1''"
    by (simp add: runProp_def)
  from preview_fallback_content [OF stored ready worker type, where path = "''js/app.js''" and objs = "[]"] path ident
  have "preview [''r1'' \<mapsto> ?run] WorkerManager_new [] ''r1'' ''js/app.js'' =
      \<lparr>res_status = 200, res_headers = previewHeaders ?run ''js/app.js'',
       res_body = FallbackScript ''js/app.js'' (JStr ''r1'')\<rparr>"
    by auto
  with stored unknown show ?thesis by simp
qed

subsection \<open>Orchestration\<close>

lemma update_run_fields [simp]:
  "tasks (update_run i u c s) = tasks s" "heap (update_run i u c s) = heap s"
  "workerManager (update_run i u c s) = workerManager s"
  "zipProcessor (update_run i u c s) = zipProcessor s"
  by (simp_all add: update_run_def)

lemma update_run_store:
  "runStore (update_run i u c s) =
     (case runStore s i of
        None \<Rightarrow> runStore s
      | Some r \<Rightarrow> (runStore s)(i \<mapsto> (r ++ u)(''updatedAt'' \<mapsto> JStr (nowIso c))))"
  by (simp add: update_run_def RunStore_update_def Let_def split: option.splits)

lemma processRun_catch_fields [simp]:
  "tasks (processRun_catch i e c s) = (tasks s)(i \<mapsto> Finished)"
  "heap (processRun_catch i e c s) = heap s"
  "workerManager (processRun_catch i e c s) = workerManager s"
  "zipProcessor (processRun_catch i e c s) = zipProcessor s"
  by (simp_all add: processRun_catch_def Let_def)

lemma processRun_catch_store:
  "runStore (processRun_catch i e c s) =
     (case runStore s i of
        None \<Rightarrow> runStore s
      | Some r \<Rightarrow> (runStore s)(i \<mapsto> r(''status'' \<mapsto> JStr ''failed'', ''error'' \<mapsto> JStr (message e),
                                     ''failedAt'' \<mapsto> JStr (nowIso c), ''updatedAt'' \<mapsto> JStr (nowIso c))))"
  by (auto simp: processRun_catch_def Let_def update_run_store fun_eq_iff map_add_def split: option.splits)

lemma processRun_ready_fields [simp]:
  "tasks (processRun_ready i c s) = (tasks s)(i \<mapsto> Finished)"
  "heap (processRun_ready i c s) = heap s"
  "workerManager (processRun_ready i c s) = workerManager s"
  "zipProcessor (processRun_ready i c s) = zipProcessor s"
  by (simp_all add: processRun_ready_def Let_def)

lemma processRun_ready_store:
  "runStore (processRun_ready i c s) =
     (case runStore s i of
        None \<Rightarrow> runStore s
      | Some r \<Rightarrow> (runStore s)(i \<mapsto> r(''status'' \<mapsto> JStr ''ready'', ''previewUrl'' \<mapsto> JStr (''/preview/'' @ i),
                                     ''readyAt'' \<mapsto> JStr (nowIso c), ''updatedAt'' \<mapsto> JStr (nowIso c))))"
  by (auto simp: processRun_ready_def Let_def update_run_store fun_eq_iff map_add_def split: option.splits)

lemma task_ok_pending: "t \<noteq> Finished \<Longrightarrow> task_ok (Some t) run = pending run"
  by (cases t) simp_all

lemma run_invD: "run_inv s \<Longrightarrow> runStore s i = Some r \<Longrightarrow> task_ok (tasks s i) r"
  by (simp add: run_inv_def)

lemma run_inv_stored:
  "run_inv s \<Longrightarrow> runStore s i = Some r \<Longrightarrow> tasks s i \<noteq> Some Finished \<Longrightarrow> pending r"
  using run_invD [of s i r] by (cases "tasks s i") (auto simp: task_ok_pending)

lemma run_inv_fresh: "run_inv s \<Longrightarrow> tasks s i = None \<Longrightarrow> runStore s i = None"
  using run_invD [of s i] by (cases "runStore s i") auto

lemma run_inv_other [simp]:
  "run_inv (s\<lparr>heap := h\<rparr>) = run_inv s"
  "run_inv (s\<lparr>workerManager := wm\<rparr>) = run_inv s"
  "run_inv (s\<lparr>zipProcessor := zp\<rparr>) = run_inv s"
  by (simp_all add: run_inv_def)

lemma run_inv_catch:
  assumes "run_inv s" and "tasks s i \<noteq> Some Finished"
  shows "run_inv (processRun_catch i e c s)"
  unfolding run_inv_def
proof (intro allI impI)
  fix j run
  assume stored: "runStore (processRun_catch i e c s) j = Some run"
  show "task_ok (tasks (processRun_catch i e c s) j) run"
  proof (cases "j = i")
    case False
    with stored assms(1) show ?thesis
      by (auto simp: processRun_catch_store run_inv_def split: option.splits)
  next
    case True
    with stored obtain r where r: "runStore s i = Some r"
      and run: "run = r(''status'' \<mapsto> JStr ''failed'', ''error'' \<mapsto> JStr (message e),
                        ''failedAt'' \<mapsto> JStr (nowIso c), ''updatedAt'' \<mapsto> JStr (nowIso c))"
      by (auto simp: processRun_catch_store split: option.splits)
    from run_inv_stored [OF assms(1) r assms(2)] run True show ?thesis
      by (simp add: pending_def settled_def)
  qed
qed

lemma run_inv_ready:
  assumes "run_inv s" and "tasks s i \<noteq> Some Finished"
  shows "run_inv (processRun_ready i c s)"
  unfolding run_inv_def
proof (intro allI impI)
  fix j run
  assume stored: "runStore (processRun_ready i c s) j = Some run"
  show "task_ok (tasks (processRun_ready i c s) j) run"
  proof (cases "j = i")
    case False
    with stored assms(1) show ?thesis
      by (auto simp: processRun_ready_store run_inv_def split: option.splits)
  next
    case True
    with stored obtain r where r: "runStore s i = Some r"
      and run: "run = r(''status'' \<mapsto> JStr ''ready'', ''previewUrl'' \<mapsto> JStr (''/preview/'' @ i),
                        ''readyAt'' \<mapsto> JStr (nowIso c), ''updatedAt'' \<mapsto> JStr (nowIso c))"
      by (auto simp: processRun_ready_store split: option.splits)
    from run_inv_stored [OF assms(1) r assms(2)] run True show ?thesis
      by (simp add: pending_def settled_def)
  qed
qed

text \<open>An update that sets neither a final status nor a preview URL nor an error.\<close>

lemma run_inv_update:
  assumes "run_inv s" and "tasks s i \<noteq> Some Finished"
    and "u ''status'' \<noteq> Some (JStr ''ready'')" and "u ''status'' \<noteq> Some (JStr ''failed'')"
    and "u ''previewUrl'' = None" and "u ''error'' = None"
  shows "run_inv (update_run i u c s)"
  unfolding run_inv_def
proof (intro allI impI)
  fix j run
  assume stored: "runStore (update_run i u c s) j = Some run"
  show "task_ok (tasks (update_run i u c s) j) run"
  proof (cases "j = i")
    case False
    with stored assms(1) show ?thesis
      by (auto simp: update_run_store run_inv_def split: option.splits)
  next
    case True
    with stored obtain r where r: "runStore s i = Some r"
      and run: "run = (r ++ u)(''updatedAt'' \<mapsto> JStr (nowIso c))"
      by (auto simp: update_run_store split: option.splits)
    from run_inv_stored [OF assms(1) r assms(2)] have "pending r" .
    with assms(3-6) run have "pending run"
      by (auto simp: pending_def map_add_def split: option.splits)
    moreover from run_invD [OF assms(1) r] have "tasks s i \<noteq> None"
      by (cases "tasks s i") auto
    ultimately show ?thesis using True assms(2)
      by (cases "tasks s i") (auto simp: task_ok_pending)
  qed
qed

text \<open>The task of a run moves on to a point that is not the end.\<close>

lemma run_inv_task:
  assumes "run_inv s" and "tasks s i \<noteq> Some Finished" and "t \<noteq> Finished"
  shows "run_inv (s\<lparr>tasks := (tasks s)(i \<mapsto> t)\<rparr>)"
  unfolding run_inv_def
proof (intro allI impI)
  fix j run
  assume "runStore (s\<lparr>tasks := (tasks s)(i \<mapsto> t)\<rparr>) j = Some run"
  then have stored: "runStore s j = Some run" by simp
  show "task_ok (tasks (s\<lparr>tasks := (tasks s)(i \<mapsto> t)\<rparr>) j) run"
  proof (cases "j = i")
    case False
    with stored assms(1) show ?thesis by (simp add: run_inv_def)
  next
    case True
    with run_inv_stored [OF assms(1) _ assms(2)] stored have "pending run" by simp
    with True assms(3) show ?thesis by (simp add: task_ok_pending)
  qed
qed


lemma run_inv_cong: "runStore s' = runStore s \<Longrightarrow> tasks s' = tasks s \<Longrightarrow> run_inv s' = run_inv s"
  by (simp add: run_inv_def)

lemma post_run_effect:
  "tasks (post_run i f c s) = (tasks s)(i \<mapsto> AwaitExtract)"
  "heap (post_run i f c s) = heap s"
  "j \<noteq> i \<Longrightarrow> runStore (post_run i f c s) j = runStore s j"
  "runStore (post_run i f c s) i = Some r \<Longrightarrow> pending r"
  by (auto simp: post_run_def Let_def update_run_store RunStore_create_def runProp_def
        pending_def map_add_def)

lemma run_inv_post:
  assumes "run_inv s" and "tasks s i = None"
  shows "run_inv (post_run i f c s)"
  unfolding run_inv_def
proof (intro allI impI)
  fix j r
  assume stored: "runStore (post_run i f c s) j = Some r"
  show "task_ok (tasks (post_run i f c s) j) r"
  proof (cases "j = i")
    case True
    with stored post_run_effect(4) [of i f c s r] show ?thesis
      by (simp add: post_run_effect(1))
  next
    case False
    with stored run_invD [OF assms(1), of j r] show ?thesis
      by (simp add: post_run_effect)
  qed
qed

lemma run_inv_wait:
  assumes "run_inv s" and "tasks s i \<noteq> Some Finished"
  shows "run_inv (processRun_wait i ref t0 c s)"
proof (cases "waitUntilReady_turn (heap s ! ref) t0 (nowMs c) 30000")
  case Resolved
  with assms show ?thesis by (simp add: processRun_wait_def run_inv_ready)
next
  case (Rejected e)
  with assms show ?thesis by (simp add: processRun_wait_def run_inv_catch)
next
  case Sleep
  with run_inv_task [OF assms, of "AwaitReady ref t0"] show ?thesis
    by (simp add: processRun_wait_def)
qed

lemma run_inv_extracted:
  assumes "run_inv s" and "tasks s i = Some AwaitExtract"
  shows "run_inv (processRun_extracted i io c s)"
proof (cases "extractZip io (zipProcessor s) i")
  case (Pair r zp)
  show ?thesis
  proof (cases r)
    case (Inl e)
    with Pair assms show ?thesis
      by (simp add: processRun_extracted_def run_inv_catch)
  next
    case (Inr info)
    let ?u = "[''status'' \<mapsto> JStr ''building'', ''projectType'' \<mapsto> objProp info ''type'',
               ''projectInfo'' \<mapsto> JObj info]"
    let ?s1 = "update_run i ?u c (s\<lparr>zipProcessor := zp\<rparr>)"
    from assms have "run_inv ?s1"
      by (intro run_inv_update) simp_all
    moreover have "tasks ?s1 i \<noteq> Some Finished" using assms(2) by simp
    ultimately have "run_inv (?s1\<lparr>tasks := (tasks ?s1)(i \<mapsto> AwaitBuild (length (heap s)))\<rparr>)"
      by (intro run_inv_task) simp_all
    with Pair Inr show ?thesis
      by (simp add: processRun_extracted_def Let_def WorkerManager_start_begin_def run_inv_def)
  qed
qed

lemma run_inv_built:
  assumes "run_inv s" and "tasks s i = Some (AwaitBuild ref)"
  shows "run_inv (processRun_built i ref ok c s)"
proof (cases ok)
  case True
  with run_inv_task [OF assms(1), of i "AwaitStart ref"] assms(2) show ?thesis
    by (simp add: processRun_built_def)
next
  case False
  with assms show ?thesis
    by (simp add: processRun_built_def Let_def run_inv_catch)
qed

lemma run_inv_started:
  assumes "run_inv s" and "tasks s i = Some (AwaitStart ref)"
  shows "run_inv (processRun_started i ref c s)"
proof -
  let ?s1 = "s\<lparr>heap := WorkerManager_start_finish ref (heap s)\<rparr>"
  let ?u = "[''status'' \<mapsto> JStr ''building'', ''workerId'' \<mapsto> JStr (w_id (heap ?s1 ! ref)),
             ''workerPort'' \<mapsto> JNum (of_nat (w_port (heap ?s1 ! ref)))]"
  from assms have "run_inv (update_run i ?u c ?s1)"
    by (intro run_inv_update) simp_all
  moreover have "tasks (update_run i ?u c ?s1) i \<noteq> Some Finished" using assms(2) by simp
  ultimately show ?thesis
    unfolding processRun_started_def Let_def by (rule run_inv_wait)
qed

lemma run_inv_delete:
  assumes "run_inv s"
  shows "run_inv (delete_run i io s)"
proof (cases "RunStore_get (runStore s) i")
  case None
  with assms show ?thesis by (simp add: delete_run_def)
next
  case (Some run)
  then have "runStore (delete_run i io s) = (runStore s)(i := None)"
      "tasks (delete_run i io s) = tasks s"
    by (simp_all add: delete_run_def Let_def RunStore_delete_def)
  with assms show ?thesis
    by (auto simp: run_inv_def split: if_splits)
qed

lemma run_inv_fire:
  assumes "run_inv s" and "enabled e s"
  shows "run_inv (fire e s)"
proof (cases e)
  case (Post i upl c)
  with assms show ?thesis by (cases upl) (simp_all add: run_inv_post)
next
  case (ExtractDone i io c)
  with assms show ?thesis by (simp add: run_inv_extracted)
next
  case (BuildDone i ok c)
  with assms show ?thesis
    by (auto simp: run_inv_built split: option.splits task.splits)
next
  case (StartDone i c)
  with assms show ?thesis
    by (auto simp: run_inv_started split: option.splits task.splits)
next
  case (Poll i c)
  with assms show ?thesis
    by (auto simp: run_inv_wait split: option.splits task.splits)
next
  case (Delete i io)
  with assms show ?thesis by (simp add: run_inv_delete)
qed

lemma run_inv_initial: "run_inv initial"
  by (simp add: run_inv_def initial_def)

lemma reachable_run_inv: "reachable s \<Longrightarrow> run_inv s"
  by (induction rule: reachable.induct) (simp_all add: run_inv_initial run_inv_fire)

lemma runIds_update:
  assumes "w_runId x = w_runId (h ! r)"
  shows "map w_runId (h[r := x]) = map w_runId h"
proof (cases "r < length h")
  case True
  with assms show ?thesis by (simp add: map_update list_update_same_conv)
next
  case False
  then have "h[r := x] = h" by (simp add: list_update_beyond)
  then show ?thesis by simp
qed

lemma worker_inv_cong:
  "map w_runId (heap s') = map w_runId (heap s) \<Longrightarrow> tasks s' = tasks s \<Longrightarrow>
   worker_inv s' = worker_inv s"
  by (simp add: worker_inv_def)

text \<open>The task of a run moves past the extraction, the Workers keep their runs.\<close>

lemma worker_inv_task:
  assumes "worker_inv s" and "map w_runId (heap s') = map w_runId (heap s)"
    and "tasks s' = (tasks s)(i \<mapsto> t)" and "t \<noteq> AwaitExtract"
  shows "worker_inv s'"
  using assms by (auto simp: worker_inv_def)

lemma worker_inv_post:
  assumes "worker_inv s" and "tasks s i = None"
  shows "worker_inv (post_run i f c s)"
  using assms by (auto simp: worker_inv_def post_run_effect)

lemma worker_inv_catch:
  assumes "worker_inv s"
  shows "worker_inv (processRun_catch i e c s)"
  using assms by (auto simp: worker_inv_def)

lemma worker_inv_ready:
  assumes "worker_inv s"
  shows "worker_inv (processRun_ready i c s)"
  using assms by (auto simp: worker_inv_def)

lemma worker_inv_wait:
  assumes "worker_inv s"
  shows "worker_inv (processRun_wait i ref t0 c s)"
proof (cases "waitUntilReady_turn (heap s ! ref) t0 (nowMs c) 30000")
  case Resolved
  with assms show ?thesis by (simp add: processRun_wait_def worker_inv_ready)
next
  case (Rejected e)
  with assms show ?thesis by (simp add: processRun_wait_def worker_inv_catch)
next
  case Sleep
  with assms show ?thesis
    by (auto simp: processRun_wait_def worker_inv_def)
qed

lemma worker_inv_extracted:
  assumes "worker_inv s" and "tasks s i = Some AwaitExtract"
  shows "worker_inv (processRun_extracted i io c s)"
proof (cases "extractZip io (zipProcessor s) i")
  case (Pair r zp)
  show ?thesis
  proof (cases r)
    case (Inl e)
    from assms(1) have "worker_inv (s\<lparr>zipProcessor := zp\<rparr>)"
      by (simp add: worker_inv_def)
    with Pair Inl show ?thesis
      by (simp add: processRun_extracted_def worker_inv_catch)
  next
    case (Inr info)
    from assms have fresh: "i \<notin> set (map w_runId (heap s))"
      by (auto simp: worker_inv_def)
    with assms(1) Pair Inr show ?thesis
      by (auto simp: processRun_extracted_def Let_def WorkerManager_start_begin_def
            worker_inv_def)
  qed
qed

lemma worker_inv_built:
  assumes "worker_inv s"
  shows "worker_inv (processRun_built i ref ok c s)"
proof (cases ok)
  case True
  with assms show ?thesis
    by (auto simp: processRun_built_def worker_inv_def)
next
  case False
  let ?s1 = "s\<lparr>workerManager := fst (snd (WorkerManager_start_failed ref (workerManager s, heap s))),
                heap := snd (snd (WorkerManager_start_failed ref (workerManager s, heap s)))\<rparr>"
  have "map w_runId (heap ?s1) = map w_runId (heap s)"
    by (simp add: WorkerManager_start_failed_def Let_def runIds_update)
  with assms have "worker_inv ?s1"
    using worker_inv_cong [of ?s1 s] by simp
  with False show ?thesis
    by (simp add: processRun_built_def Let_def worker_inv_catch)
qed

lemma worker_inv_started:
  assumes "worker_inv s"
  shows "worker_inv (processRun_started i ref c s)"
proof -
  let ?s1 = "s\<lparr>heap := WorkerManager_start_finish ref (heap s)\<rparr>"
  have ids: "map w_runId (heap ?s1) = map w_runId (heap s)"
    by (simp add: WorkerManager_start_finish_def runIds_update)
  have "worker_inv (update_run i u c ?s1)" for u
    using assms ids worker_inv_cong [of "update_run i u c ?s1" s] by simp
  then show ?thesis
    unfolding processRun_started_def Let_def by (intro worker_inv_wait)
qed

lemma worker_inv_delete:
  assumes "worker_inv s"
  shows "worker_inv (delete_run i io s)"
proof (cases "RunStore_get (runStore s) i")
  case None
  with assms show ?thesis by (simp add: delete_run_def)
next
  case (Some run)
  have "map w_runId (snd (WorkerManager_stop v (wm, h))) = map w_runId h" for v wm h
    by (simp add: WorkerManager_stop_def Let_def Worker_stop_def runIds_update split: option.splits)
  with Some have "map w_runId (heap (delete_run i io s)) = map w_runId (heap s)"
      "tasks (delete_run i io s) = tasks s"
    by (simp_all add: delete_run_def Let_def)
  with assms show ?thesis
    using worker_inv_cong by blast
qed

lemma worker_inv_fire:
  assumes "worker_inv s" and "enabled e s"
  shows "worker_inv (fire e s)"
proof (cases e)
  case (Post i upl c)
  with assms show ?thesis by (cases upl) (simp_all add: worker_inv_post)
next
  case (ExtractDone i io c)
  with assms show ?thesis by (simp add: worker_inv_extracted)
next
  case (BuildDone i ok c)
  with assms show ?thesis
    by (auto simp: worker_inv_built split: option.splits task.splits)
next
  case (StartDone i c)
  with assms show ?thesis
    by (auto simp: worker_inv_started split: option.splits task.splits)
next
  case (Poll i c)
  with assms show ?thesis
    by (auto simp: worker_inv_wait split: option.splits task.splits)
next
  case (Delete i io)
  with assms show ?thesis by (simp add: worker_inv_delete)
qed

lemma worker_inv_initial: "worker_inv initial"
  by (simp add: worker_inv_def initial_def)

lemma reachable_worker_inv: "reachable s \<Longrightarrow> worker_inv s"
  by (induction rule: reachable.induct) (simp_all add: worker_inv_initial worker_inv_fire)

lemma reachable_run_events:
  "reachable s \<Longrightarrow> run_events es s = Some s' \<Longrightarrow> reachable s'"
proof (induction es arbitrary: s)
  case Nil
  then show ?case by simp
next
  case (Cons e es)
  then show ?case by (auto intro: reachable.step split: if_splits)
qed

lemma distinct_filter_le_one:
  "distinct (map f xs) \<Longrightarrow> length (filter (\<lambda>x. f x = a \<and> P x) xs) \<le> 1"
proof (induction xs)
  case Nil
  then show ?case by simp
next
  case (Cons x xs)
  show ?case
  proof (cases "f x = a")
    case True
    with Cons.prems have "\<forall>y\<in>set xs. f y \<noteq> a" by (metis distinct.simps(2) imageI list.simps(9) list.set_map)
    then have "filter (\<lambda>x. f x = a \<and> P x) xs = []"
      by (simp add: filter_empty_conv)
    then show ?thesis by simp
  next
    case False
    with Cons show ?thesis by simp
  qed
qed

text \<open>The definitions a concrete run of the server unfolds to.\<close>

lemmas model_defs =
  readyTrace_def deletedTrace_def initial_def uploadedZip_def clockAt_def staticArchive_def
  post_run_def processRun_extracted_def processRun_built_def processRun_started_def
  processRun_wait_def processRun_ready_def processRun_catch_def delete_run_def update_run_def
  RunStore_create_def RunStore_get_def RunStore_update_def RunStore_delete_def runProp_def
  WorkerManager_new_def WorkerManager_get_def WorkerManager_start_begin_def
  WorkerManager_start_failed_def WorkerManager_start_finish_def WorkerManager_stop_def
  WorkerManager_forget_def
  Worker_stop_def waitUntilReady_turn_def
  extractZip_def extract_try_def extractPathOf_def upload_tempDir_def upload_maxFiles_def
  isAbsolute_posix_def mkdir_def extractAllTo_def rm_def cleanup_def
  analyzeProject_def getFileList_def rootFilesOf_def relativePath_def analyzeStaticProject_def
  filesValue_def endsWith_def objProp_def Let_def

text \<open>
  C5. In every state the server can reach, a run held by the store has a preview URL
  exactly when its status is ready, and an error exactly when its status is failed.
\<close>

theorem run_previewUrl_and_error:
  assumes "reachable s" and "RunStore_get (runStore s) runId = Some run"
  shows "(run ''previewUrl'' \<noteq> None \<longleftrightarrow> runProp run ''status'' = JStr ''ready'') \<and>
         (run ''error'' \<noteq> None \<longleftrightarrow> runProp run ''status'' = JStr ''failed'')"
proof -
  from assms(2) have stored: "runStore s runId = Some run"
    by (simp add: RunStore_get_def)
  from run_invD [OF reachable_run_inv [OF assms(1)] stored]
  have ok: "task_ok (tasks s runId) run" .
  have "pending run \<or> settled run"
  proof (cases "tasks s runId")
    case None
    with ok show ?thesis by simp
  next
    case (Some t)
    with ok show ?thesis by (cases "t = Finished") (auto simp: task_ok_pending)
  qed
  then show ?thesis
    by (auto simp: pending_def settled_def runProp_def split: option.splits)
qed

theorem run_previewUrl_and_error_witness:
  "case run_events readyTrace initial of
     None \<Rightarrow> False
   | Some s \<Rightarrow> reachable s \<and>
       (\<exists>run. RunStore_get (runStore s) ''r1'' = Some run \<and>
              runProp run ''status'' = JStr ''ready'' \<and> run ''previewUrl'' \<noteq> None)"
proof -
  have "\<exists>s run. run_events readyTrace initial = Some s \<and>
      RunStore_get (runStore s) ''r1'' = Some run \<and> runProp run ''status'' = JStr ''ready''"
    by (simp add: model_defs)
  then obtain s run where events: "run_events readyTrace initial = Some s"
    and stored: "RunStore_get (runStore s) ''r1'' = Some run"
    and ready: "runProp run ''status'' = JStr ''ready''" by blast
  from reachable_run_events [OF reachable.init events] have reach: "reachable s" .
  from run_previewUrl_and_error [OF reach stored] ready have "run ''previewUrl'' \<noteq> None"
    by simp
  with events reach stored ready show ?thesis by auto
qed

text \<open>
  C7. In every state the server can reach, a run has at most one live Worker, and
  indeed at most one Worker object at all; the step that constructs a Worker for a
  run, the end of its extraction, can happen only while the run has no Worker. The
  guarantee comes from \<^verbatim>\<open>processRun\<close>, which starts one Worker per run id;
  \<^verbatim>\<open>WorkerManager.start\<close> itself makes no check.
\<close>

theorem one_worker_per_run:
  assumes "reachable s"
  shows "length (filter (\<lambda>w. w_runId w = runId \<and> live w) (heap s)) \<le> 1 \<and>
         length (filter (\<lambda>w. w_runId w = runId) (heap s)) \<le> 1 \<and>
         (\<forall>io clk. enabled (ExtractDone runId io clk) s \<longrightarrow>
            filter (\<lambda>w. w_runId w = runId) (heap s) = [])"
proof -
  from reachable_worker_inv [OF assms] have inv: "worker_inv s" .
  then have distinct: "distinct (map w_runId (heap s))"
    by (simp add: worker_inv_def)
  have "filter (\<lambda>w. w_runId w = runId) (heap s) = []" if "tasks s runId = Some AwaitExtract"
    using inv that by (auto simp: worker_inv_def filter_empty_conv)
  moreover from distinct_filter_le_one [OF distinct, of runId live]
  have "length (filter (\<lambda>w. w_runId w = runId \<and> live w) (heap s)) \<le> 1" .
  moreover from distinct_filter_le_one [OF distinct, of runId "\<lambda>w. True"]
  have "length (filter (\<lambda>w. w_runId w = runId) (heap s)) \<le> 1" by simp
  ultimately show ?thesis by simp
qed

theorem one_worker_per_run_witness:
  "(case run_events readyTrace initial of
      None \<Rightarrow> False
    | Some s \<Rightarrow> reachable s \<and> map w_runId (heap s) = [''r1''] \<and>
        map w_status (heap s) = [Running] \<and>
        length (filter (\<lambda>w. w_runId w = ''r1'' \<and> live w) (heap s)) \<le> 1) \<and>
   (case run_events (take 1 readyTrace) initial of
      None \<Rightarrow> False
    | Some s \<Rightarrow> reachable s \<and> enabled (ExtractDone ''r1'' staticArchive (clockAt 10)) s \<and>
        filter (\<lambda>w. w_runId w = ''r1'') (heap s) = [])"
proof -
  have "\<exists>s. run_events readyTrace initial = Some s \<and>
      map w_runId (heap s) = [''r1''] \<and> map w_status (heap s) = [Running]"
    by (simp add: model_defs)
  then obtain s where events: "run_events readyTrace initial = Some s"
    and ids: "map w_runId (heap s) = [''r1'']" and statuses: "map w_status (heap s) = [Running]"
    by (elim exE conjE)
  from reachable_run_events [OF reachable.init events] have reach: "reachable s" .
  from one_worker_per_run [OF reach, of "''r1''"]
  have "length (filter (\<lambda>w. w_runId w = ''r1'' \<and> live w) (heap s)) \<le> 1" by blast
  with events reach ids statuses have first: "case run_events readyTrace initial of
      None \<Rightarrow> False
    | Some s \<Rightarrow> reachable s \<and> map w_runId (heap s) = [''r1''] \<and>
        map w_status (heap s) = [Running] \<and>
        length (filter (\<lambda>w. w_runId w = ''r1'' \<and> live w) (heap s)) \<le> 1"
    by simp
  have "\<exists>s. run_events (take 1 readyTrace) initial = Some s \<and>
      enabled (ExtractDone ''r1'' staticArchive (clockAt 10)) s"
    by (simp add: model_defs)
  then obtain s1 where events1: "run_events (take 1 readyTrace) initial = Some s1"
    and extracting: "enabled (ExtractDone ''r1'' staticArchive (clockAt 10)) s1"
    by (elim exE conjE)
  from reachable_run_events [OF reachable.init events1] have reach1: "reachable s1" .
  from one_worker_per_run [OF reach1, of "''r1''"] extracting
  have "filter (\<lambda>w. w_runId w = ''r1'') (heap s1) = []" by blast
  with events1 reach1 extracting have second: "case run_events (take 1 readyTrace) initial of
      None \<Rightarrow> False
    | Some s \<Rightarrow> reachable s \<and> enabled (ExtractDone ''r1'' staticArchive (clockAt 10)) s \<and>
        filter (\<lambda>w. w_runId w = ''r1'') (heap s) = []"
    by simp
  from first second show ?thesis by (rule conjI)
qed

text \<open>
  C4 fails on the code. A run is uploaded and extracted, so that it is building and
  its Worker is starting, but its \<^verbatim>\<open>workerId\<close> is not yet recorded. The run is then
  deleted: the handler finds no \<^verbatim>\<open>workerId\<close> and never calls \<^verbatim>\<open>workerManager.stop\<close>. The
  timers of the Worker fire, the updates of \<^verbatim>\<open>processRun\<close> find no run, and the Worker
  ends up registered and running, with its health check scheduled, for a run that no
  longer exists.
\<close>

theorem delete_while_building_keeps_worker:
  "(case run_events (take 2 deletedTrace) initial of
      None \<Rightarrow> False
    | Some s \<Rightarrow>
        map_option (\<lambda>run. (run ''status'', run ''workerId'')) (RunStore_get (runStore s) ''r1'')
          = Some (Some (JStr ''building''), None) \<and>
        map w_runId (heap s) = [''r1''] \<and> map w_status (heap s) = [Starting]) \<and>
   (case run_events deletedTrace initial of
      None \<Rightarrow> False
    | Some s \<Rightarrow>
        RunStore_get (runStore s) ''r1'' = None \<and>
        WorkerManager_get (workerManager s) (JStr ''worker-r1'') = Some 0 \<and>
        map w_runId (heap s) = [''r1''] \<and> map w_status (heap s) = [Running] \<and>
        map w_healthCheckInterval (heap s) = [True])"
  by (simp add: model_defs)

text \<open>
  C8 fails on the code. A static archive is uploaded and processed to the end: the run
  is ready in the store of the runs module. The preview handler looks the run up in
  the store of its own module, which is empty, and answers with status 404 and no
  \<^verbatim>\<open>Content-Security-Policy\<close> header, where the claim has the strict profile.
\<close>

theorem ready_run_preview_has_no_csp:
  "(case run_events readyTrace initial of
      None \<Rightarrow> False
    | Some s \<Rightarrow>
        map_option (\<lambda>run. (run ''status'', run ''projectType'')) (RunStore_get (runStore s) ''r1'')
          = Some (Some (JStr ''ready''), Some (JStr ''static''))) \<and>
   res_status (get_preview ''r1'' []) = 404 \<and>
   res_headers (get_preview ''r1'' []) ''Content-Security-Policy'' = None"
  by (simp add: model_defs get_preview_def preview_def preview_runStore_def
        securityMiddleware_preview_def)

text \<open>
  C10 fails on the code, by the same defect. The ready run has the \<^verbatim>\<open>workerId\<close>
  \<^verbatim>\<open>worker-r1\<close>, which the manager of the preview module does not know; the preview
  handler still finds no run in its own store and answers every path with the
  not-found page, status 404, instead of the fallback content.
\<close>

theorem ready_run_preview_not_found:
  "(case run_events readyTrace initial of
      None \<Rightarrow> False
    | Some s \<Rightarrow>
        map_option (\<lambda>run. (run ''status'', run ''workerId'')) (RunStore_get (runStore s) ''r1'')
          = Some (Some (JStr ''ready''), Some (JStr ''worker-r1''))) \<and>
   WorkerManager_get preview_workerManager (JStr ''worker-r1'') = None \<and>
   get_preview runId requestPath =
     \<lparr>res_status = 404, res_headers = securityMiddleware_preview, res_body = NotFoundPage\<rparr>"
  by (simp add: model_defs get_preview_def preview_def preview_runStore_def
        preview_workerManager_def)

end
